theory Spec2Isabelle
  imports Complex_Main "HOL-Library.Log_Nat"
begin

section \<open>JavaScript numbers\<close>

text \<open>
  A JavaScript number is an IEEE-754 binary64 value. A finite one is represented by the
  rational it denotes; the two zeros are identified (no operation below distinguishes them).
  \<open>fl\<close> rounds a rational to the nearest binary64 value, ties to even: 53 significant bits,
  least exponent \<open>-1022\<close> (below it the spacing stays \<open>2 powi -1074\<close>), and overflow to an infinity
  from \<open>2 ^ 1024\<close> on. \<open>ilog2 x\<close> is the exponent of \<open>x\<close>, the integer \<open>e\<close> with
  \<open>2 powi e \<le> \<bar>x\<bar> < 2 powi (e + 1)\<close>, computed from the bit lengths of numerator and
  denominator. \<open>js_mult\<close> and \<open>js_add\<close> are the operators \<open>*\<close> and \<open>+\<close> on numbers.
\<close>

datatype jsnum = Fin rat | PosInf | NegInf | NaN

definition ilog2 :: "rat \<Rightarrow> int" where
  "ilog2 x = (case quotient_of \<bar>x\<bar> of (a, b) \<Rightarrow>
     let d = bitlen a - bitlen b in if 2 powi d \<le> \<bar>x\<bar> then d else d - 1)"

definition round_half_even :: "rat \<Rightarrow> int" where
  "round_half_even m = (let f = \<lfloor>m\<rfloor>; d = m - of_int f in
     if d < 1 / 2 then f else if 1 / 2 < d then f + 1 else if even f then f else f + 1)"

definition fl :: "rat \<Rightarrow> jsnum" where
  "fl x = (if x = 0 then Fin 0 else
     let e = max (ilog2 x) (- 1022);
         q = 2 powi (e - 52);
         r = of_int (round_half_even (x / q)) * q
     in if 2 ^ 1024 \<le> r then PosInf else if r \<le> - (2 ^ 1024) then NegInf else Fin r)"

fun js_mult :: "jsnum \<Rightarrow> jsnum \<Rightarrow> jsnum" where
  "js_mult NaN _ = NaN"
| "js_mult _ NaN = NaN"
| "js_mult (Fin a) (Fin b) = fl (a * b)"
| "js_mult (Fin a) PosInf = (if a = 0 then NaN else if 0 < a then PosInf else NegInf)"
| "js_mult (Fin a) NegInf = (if a = 0 then NaN else if 0 < a then NegInf else PosInf)"
| "js_mult PosInf (Fin b) = (if b = 0 then NaN else if 0 < b then PosInf else NegInf)"
| "js_mult NegInf (Fin b) = (if b = 0 then NaN else if 0 < b then NegInf else PosInf)"
| "js_mult PosInf PosInf = PosInf"
| "js_mult PosInf NegInf = NegInf"
| "js_mult NegInf PosInf = NegInf"
| "js_mult NegInf NegInf = PosInf"

fun js_add :: "jsnum \<Rightarrow> jsnum \<Rightarrow> jsnum" where
  "js_add NaN _ = NaN"
| "js_add _ NaN = NaN"
| "js_add (Fin a) (Fin b) = fl (a + b)"
| "js_add (Fin a) PosInf = PosInf"
| "js_add (Fin a) NegInf = NegInf"
| "js_add PosInf (Fin b) = PosInf"
| "js_add NegInf (Fin b) = NegInf"
| "js_add PosInf PosInf = PosInf"
| "js_add PosInf NegInf = NaN"
| "js_add NegInf PosInf = NaN"
| "js_add NegInf NegInf = NegInf"

text \<open>
  A \<open>DECIMAL(10, 2)\<close> column is held as its number of hundredths. The driver hands such a
  column to JavaScript as its decimal text; \<open>parseFloat\<close> of that text is the binary64 value
  nearest to the decimal. An integer of the request used in arithmetic is converted likewise.
\<close>

type_synonym decimal2 = int

definition parseFloat :: "decimal2 \<Rightarrow> jsnum" where
  "parseFloat c = fl (of_int c / 100)"

definition to_number :: "int \<Rightarrow> jsnum" where
  "to_number i = fl (of_int i)"

section \<open>Strings\<close>

definition digit :: "nat \<Rightarrow> char" where
  "digit n = ''0123456789'' ! n"

fun digits :: "nat \<Rightarrow> string" where
  "digits n = (if n < 10 then [digit n] else digits (n div 10) @ [digit (n mod 10)])"

text \<open>The text of an integer inside a template literal: \<open>`${i}`\<close>.\<close>

definition show_int :: "int \<Rightarrow> string" where
  "show_int i = (if i < 0 then CHR ''-'' # digits (nat (- i)) else digits (nat i))"

text \<open>The text of a \<open>DECIMAL(10, 2)\<close> value, as the database prints it: \<open>1299.99\<close>, \<open>-0.05\<close>.\<close>

definition show_decimal :: "decimal2 \<Rightarrow> string" where
  "show_decimal c = (let a = nat \<bar>c\<bar>; f = a mod 100 in
     (if c < 0 then ''-'' else '''') @ digits (a div 100) @ ''.''
       @ [digit (f div 10), digit (f mod 10)])"

text \<open>A key pattern of the cache: \<open>*\<close> stands for any run of characters, \<open>?\<close> for one.\<close>

fun glob :: "string \<Rightarrow> string \<Rightarrow> bool" where
  "glob [] s = (s = [])"
| "glob (p # ps) [] = (p = CHR ''*'' \<and> glob ps [])"
| "glob (p # ps) (c # cs) =
     (if p = CHR ''*'' then glob ps (c # cs) \<or> glob (p # ps) cs
      else (p = CHR ''?'' \<or> p = c) \<and> glob ps cs)"

section \<open>JavaScript values and JSON\<close>

text \<open>
  The values that reach the cache: a \<open>Date\<close> is identified with its ISO-8601 text (what
  \<open>toISOString\<close> returns), an object is the list of its own properties in insertion order.
  A JSON document is kept as its syntax tree; the text of a document and the tree determine
  each other up to white space.
\<close>

type_synonym timestamp = string

datatype jsval = JUndefined | JNull | JBool bool | JNum jsnum | JStr string | JDate timestamp
  | JArr "jsval list" | JObj "(string \<times> jsval) list"

datatype json = JsonNull | JsonBool bool | JsonNum rat | JsonStr string
  | JsonArr "json list" | JsonObj "(string \<times> json) list"

text \<open>
  \<open>JSON.stringify\<close>: \<open>undefined\<close> has no JSON text (the result is \<open>undefined\<close>, here \<open>None\<close>);
  inside an array it becomes \<open>null\<close>, inside an object the property is left out. A number that
  is not finite becomes \<open>null\<close>, a \<open>Date\<close> becomes the string of its \<open>toJSON\<close>.
\<close>

fun stringify :: "jsval \<Rightarrow> json option" where
  "stringify JUndefined = None"
| "stringify JNull = Some JsonNull"
| "stringify (JBool b) = Some (JsonBool b)"
| "stringify (JNum (Fin r)) = Some (JsonNum r)"
| "stringify (JNum _) = Some JsonNull"
| "stringify (JStr s) = Some (JsonStr s)"
| "stringify (JDate t) = Some (JsonStr t)"
| "stringify (JArr vs) =
     Some (JsonArr (map (\<lambda>v. case stringify v of None \<Rightarrow> JsonNull | Some j \<Rightarrow> j) vs))"
| "stringify (JObj kvs) =
     Some (JsonObj (concat (map (\<lambda>(k, v). case stringify v of None \<Rightarrow> [] | Some j \<Rightarrow> [(k, j)]) kvs)))"

fun parse :: "json \<Rightarrow> jsval" where
  "parse JsonNull = JNull"
| "parse (JsonBool b) = JBool b"
| "parse (JsonNum r) = JNum (Fin r)"
| "parse (JsonStr s) = JStr s"
| "parse (JsonArr js) = JArr (map parse js)"
| "parse (JsonObj kjs) = JObj (map (\<lambda>(k, j). (k, parse j)) kjs)"

text \<open>The test \<open>if (v)\<close>.\<close>

fun truthy :: "jsval \<Rightarrow> bool" where
  "truthy JUndefined = False"
| "truthy JNull = False"
| "truthy (JBool b) = b"
| "truthy (JNum (Fin r)) = (r \<noteq> 0)"
| "truthy (JNum NaN) = False"
| "truthy (JNum _) = True"
| "truthy (JStr s) = (s \<noteq> [])"
| "truthy _ = True"

section \<open>The store, the cache and errors\<close>

text \<open>
  The tables of the schema, as far as the order workflow reads or writes them. A table with
  a primary key is a map from the key; \<open>order_items\<close> is kept in insertion order. \<open>INTEGER\<close>
  columns and quantities of a request are mathematical integers; the range check that the
  database makes on an \<open>INTEGER\<close> is part of the conditional decrement of the stock (see
  \<open>decrement_stock\<close>). Identifiers of a request are taken from the range of the \<open>INTEGER\<close>
  keys. Time does not pass inside one operation: every
  \<open>CURRENT_TIMESTAMP\<close> of an operation is its argument \<open>now\<close> (\<open>clock\<close> of a request).
\<close>

record user =
  u_email :: string
  u_name :: string

record product =
  p_sku :: string
  p_name :: string
  p_price :: decimal2
  stock_quantity :: int
  p_updated_at :: timestamp

record order =
  o_user_id :: int
  o_status :: string
  o_total_amount :: decimal2
  o_payment_method :: string
  o_payment_status :: string
  o_created_at :: timestamp
  o_updated_at :: timestamp

record order_item =
  oi_id :: int
  oi_order_id :: int
  oi_product_id :: int
  oi_quantity :: int
  oi_price :: decimal2
  oi_created_at :: timestamp

record database =
  users :: "int \<rightharpoonup> user"
  products :: "int \<rightharpoonup> product"
  orders :: "int \<rightharpoonup> order"
  order_items :: "order_item list"
  next_order_id :: int
  next_item_id :: int

text \<open>A line of a request: \<open>{ productId, quantity }\<close>.\<close>

record item =
  productId :: int
  quantity :: int

text \<open>
  An entry of the result of \<open>checkInventory\<close>. The two object literals of the source have
  different properties; a property an object does not have is \<open>None\<close>. The property
  \<open>available\<close> holds the boolean \<open>false\<close> in the one and the stock in the other.
\<close>

datatype availability = AvailFlag bool | AvailQty int

record check_entry =
  ce_productId :: int
  ce_sku :: "string option"
  ce_name :: "string option"
  ce_requested :: "int option"
  ce_available :: availability
  ce_reason :: "string option"
  ce_sufficient :: "bool option"

record check_result =
  cr_available :: bool
  cr_items :: "check_entry list"

text \<open>An \<open>Error\<close> object with the properties the code sets or reads.\<close>

record js_error =
  message :: string
  code :: "string option"
  statusCode :: "int option"
  details :: "check_entry list option"
  reason :: "string option"
  stack :: "string option"

definition Error :: "string \<Rightarrow> js_error" where
  "Error msg = \<lparr>message = msg, code = None, statusCode = None, details = None,
     reason = None, stack = None\<rparr>"

record payment_call =
  pc_order_id :: int
  pc_amount :: jsnum
  pc_method :: string

type_synonym cache_store = "string \<rightharpoonup> json"

text \<open>
  The state the operations share: the store, the cache, and a log of the calls of the
  payment step (the log is not in the source; it records that a call happened).
\<close>

record world =
  db :: database
  cache :: cache_store
  payment_calls :: "payment_call list"

subsection \<open>Cache layer\<close>

text \<open>
  \<open>get\<close>, \<open>set\<close>, \<open>del\<close> and \<open>deletePattern\<close> of the cache service. Expiry is not modelled:
  an entry stays until it is deleted. Spans and events of the tracer are not part of the
  state; \<open>withSpan\<close> is taken to run its body and pass on what it returns or throws.
\<close>

definition cache_get :: "cache_store \<Rightarrow> string \<Rightarrow> jsval" where
  "cache_get c key = (case c key of None \<Rightarrow> JNull | Some j \<Rightarrow> parse j)"

definition cache_set :: "cache_store \<Rightarrow> string \<Rightarrow> jsval \<Rightarrow> js_error + cache_store" where
  "cache_set c key v = (case stringify v of
       None \<Rightarrow> Inl (Error ''Invalid argument type'')
     | Some serialized \<Rightarrow> Inr (c(key \<mapsto> serialized)))"

definition cache_del :: "cache_store \<Rightarrow> string \<Rightarrow> cache_store" where
  "cache_del c key = c(key := None)"

definition deletePattern :: "cache_store \<Rightarrow> string \<Rightarrow> cache_store" where
  "deletePattern c pattern = (\<lambda>k. if glob pattern k then None else c k)"

section \<open>Inventory service\<close>

definition check_item :: "database \<Rightarrow> item \<Rightarrow> check_entry" where
  "check_item d it = (case products d (productId it) of
       None \<Rightarrow> \<lparr>ce_productId = productId it, ce_sku = None, ce_name = None,
                 ce_requested = None, ce_available = AvailFlag False,
                 ce_reason = Some ''product_not_found'', ce_sufficient = None\<rparr>
     | Some p \<Rightarrow>
         let isAvailable = (stock_quantity p \<ge> quantity it)
         in \<lparr>ce_productId = productId it, ce_sku = Some (p_sku p), ce_name = Some (p_name p),
              ce_requested = Some (quantity it), ce_available = AvailQty (stock_quantity p),
              ce_reason = None, ce_sufficient = Some isAvailable\<rparr>)"

text \<open>The test \<open>r.sufficient\<close> of \<open>every\<close> and \<open>filter\<close>: a missing property is falsy.\<close>

definition sufficient :: "check_entry \<Rightarrow> bool" where
  "sufficient r = (ce_sufficient r = Some True)"

definition checkInventory :: "world \<Rightarrow> item list \<Rightarrow> check_result \<times> world" where
  "checkInventory w its =
     (let results = map (check_item (db w)) its;
          allAvailable = list_all sufficient results
      in (\<lparr>cr_available = allAvailable, cr_items = results\<rparr>, w))"

text \<open>
  The statement of \<open>reserveInventory\<close>:
  \<open>UPDATE products SET stock_quantity = stock_quantity - $1, updated_at = CURRENT_TIMESTAMP
  WHERE id = $2 AND stock_quantity >= $1 RETURNING id, sku, stock_quantity\<close>.
  The result is the returned row, if one matched, and the store after the statement.

  \<open>stock_quantity\<close> is an \<open>INTEGER\<close> column, so \<open>$1\<close> is an \<open>INTEGER\<close> parameter and the
  subtraction is the one of that type. The database refuses a parameter outside the range
  of the type before it runs the statement (the error given here is the one for a quantity
  below \<open>10\<^sup>2\<^sup>1\<close> in magnitude, which is sent in decimal notation), and the statement fails
  when the difference computed for the matching row leaves the range; both errors carry the
  code \<open>22003\<close>, and the statement then changes nothing.
\<close>

definition int4 :: "int \<Rightarrow> bool" where
  "int4 i = (- (2 ^ 31) \<le> i \<and> i < 2 ^ 31)"

definition out_of_range :: "string \<Rightarrow> js_error" where
  "out_of_range msg = (Error msg)\<lparr>code := Some ''22003''\<rparr>"

definition decrement_stock :: "database \<Rightarrow> timestamp \<Rightarrow> int \<Rightarrow> int
    \<Rightarrow> (js_error + product option) \<times> database" where
  "decrement_stock d now q pid =
     (if \<not> int4 q
      then (Inl (out_of_range (''value '' @ [CHR 0x22] @ show_int q @ [CHR 0x22]
                   @ '' is out of range for type integer'')), d)
      else case products d pid of
          None \<Rightarrow> (Inr None, d)
        | Some p \<Rightarrow>
            if stock_quantity p \<ge> q
            then (if int4 (stock_quantity p - q)
                  then (let p' = p\<lparr>stock_quantity := stock_quantity p - q, p_updated_at := now\<rparr>
                        in (Inr (Some p'), d\<lparr>products := (products d)(pid \<mapsto> p')\<rparr>))
                  else (Inl (out_of_range ''integer out of range''), d))
            else (Inr None, d))"

text \<open>
  The loop of \<open>reserveInventory\<close> inside its transaction. An error of the statement is
  thrown as it is. The deletions in the cache take effect at once and are not part of the
  transaction.
\<close>

fun reserve_loop :: "database \<Rightarrow> cache_store \<Rightarrow> timestamp \<Rightarrow> item list
    \<Rightarrow> (js_error + unit) \<times> database \<times> cache_store" where
  "reserve_loop d c now [] = (Inr (), d, c)"
| "reserve_loop d c now (it # its) = (case decrement_stock d now (quantity it) (productId it) of
       (Inl error, d') \<Rightarrow> (Inl error, d', c)
     | (Inr None, d') \<Rightarrow>
         (Inl (Error (''Failed to reserve inventory for product '' @ show_int (productId it)
                 @ '': insufficient stock'')), d', c)
     | (Inr (Some row), d') \<Rightarrow>
         reserve_loop d'
           (deletePattern (cache_del c (''product:'' @ show_int (productId it))) ''products:*'')
           now its)"

record reserve_result =
  rr_success :: bool
  rr_orderId :: int
  itemsReserved :: nat

definition reserveInventory :: "world \<Rightarrow> timestamp \<Rightarrow> int \<Rightarrow> item list
    \<Rightarrow> (js_error + reserve_result) \<times> world" where
  "reserveInventory w now orderId its = (case reserve_loop (db w) (cache w) now its of
       (Inr _, d', c') \<Rightarrow>
         (Inr \<lparr>rr_success = True, rr_orderId = orderId, itemsReserved = length its\<rparr>,
          w\<lparr>db := d', cache := c'\<rparr>)
     | (Inl error, d', c') \<Rightarrow> (Inl error, w\<lparr>cache := c'\<rparr>))"

text \<open>
  The statement of \<open>releaseInventory\<close>:
  \<open>UPDATE products SET stock_quantity = stock_quantity + $1, updated_at = CURRENT_TIMESTAMP
  WHERE id = $2\<close>. The sum is the mathematical one: a release that the database would
  refuse for a sum outside the range of \<open>INTEGER\<close> (the transaction is then rolled back
  and the stock stays as it was) is not described by this definition. The order route
  releases what a reservation subtracted, quantities of at least 1, and these sums stay
  between the reserved stock and the stock before the reservation.
\<close>

definition increment_stock :: "database \<Rightarrow> timestamp \<Rightarrow> int \<Rightarrow> int \<Rightarrow> database" where
  "increment_stock d now q pid = (case products d pid of
       None \<Rightarrow> d
     | Some p \<Rightarrow> d\<lparr>products := (products d)(pid \<mapsto>
         p\<lparr>stock_quantity := stock_quantity p + q, p_updated_at := now\<rparr>)\<rparr>)"

fun release_loop :: "database \<Rightarrow> cache_store \<Rightarrow> timestamp \<Rightarrow> item list
    \<Rightarrow> database \<times> cache_store" where
  "release_loop d c now [] = (d, c)"
| "release_loop d c now (it # its) =
     release_loop (increment_stock d now (quantity it) (productId it))
       (deletePattern (cache_del c (''product:'' @ show_int (productId it))) ''products:*'')
       now its"

record release_result =
  rl_success :: bool
  rl_orderId :: int
  itemsReleased :: nat

definition releaseInventory :: "world \<Rightarrow> timestamp \<Rightarrow> int \<Rightarrow> item list
    \<Rightarrow> (js_error + release_result) \<times> world" where
  "releaseInventory w now orderId its = (case release_loop (db w) (cache w) now its of
       (d', c') \<Rightarrow>
         (Inr \<lparr>rl_success = True, rl_orderId = orderId, itemsReleased = length its\<rparr>,
          w\<lparr>db := d', cache := c'\<rparr>))"

record inventory_level =
  il_productId :: int
  il_sku :: string
  il_name :: string
  stockQuantity :: int

definition getInventoryLevel :: "world \<Rightarrow> int \<Rightarrow> (js_error + inventory_level) \<times> world" where
  "getInventoryLevel w pid = (case products (db w) pid of
       None \<Rightarrow> (Inl (Error (''Product '' @ show_int pid @ '' not found'')), w)
     | Some p \<Rightarrow>
         (Inr \<lparr>il_productId = pid, il_sku = p_sku p, il_name = p_name p,
               stockQuantity = stock_quantity p\<rparr>, w))"

section \<open>Payment service\<close>

text \<open>
  \<open>processPayment\<close> draws from \<open>Math.random\<close> and reads the clock; the draws are an
  argument: \<open>fail_draw\<close> and \<open>reason_draw\<close> are the two values of \<open>Math.random()\<close> (in
  \<open>[0, 1)\<close>), \<open>txn\<close> is the generated transaction identifier. The delay is not modelled.
\<close>

record payment_draw =
  fail_draw :: rat
  reason_draw :: rat
  txn :: string
  paid_at :: timestamp

record payment_result =
  pr_success :: bool
  transactionId :: string
  pr_amount :: jsnum
  pr_paymentMethod :: string
  pr_timestamp :: timestamp

definition errorReasons :: "string list" where
  "errorReasons = [''insufficient_funds'', ''card_declined'', ''expired_card'', ''invalid_cvv'']"

definition processPayment :: "world \<Rightarrow> payment_draw \<Rightarrow> int \<Rightarrow> jsnum \<Rightarrow> string
    \<Rightarrow> (js_error + payment_result) \<times> world" where
  "processPayment w rnd orderId amount paymentMethod =
     (let w' = w\<lparr>payment_calls := payment_calls w
                 @ [\<lparr>pc_order_id = orderId, pc_amount = amount, pc_method = paymentMethod\<rparr>]\<rparr>;
          shouldFail = (fail_draw rnd < 1 / 10)
      in if shouldFail then
           (let i = \<lfloor>reason_draw rnd * of_nat (length errorReasons)\<rfloor>;
                errorReason = (if 0 \<le> i \<and> i < int (length errorReasons)
                               then Some (errorReasons ! nat i) else None)
            in (Inl ((Error (''Payment failed: ''
                        @ (case errorReason of Some r \<Rightarrow> r | None \<Rightarrow> ''undefined'')))
                   \<lparr>code := Some ''PAYMENT_FAILED'', reason := errorReason\<rparr>), w'))
         else
           (Inr \<lparr>pr_success = True, transactionId = txn rnd, pr_amount = amount,
                 pr_paymentMethod = paymentMethod, pr_timestamp = paid_at rnd\<rparr>, w'))"

section \<open>Order routes\<close>

record order_request =
  userId :: int
  req_items :: "item list"
  paymentMethod :: string

text \<open>
  The validation chain of \<open>POST /\<close>: \<open>items\<close> is an array of at least one element, every
  quantity is an integer of at least 1, the payment method is one of three. That the
  identifiers and quantities are integers is in the types.
\<close>

definition valid_request :: "order_request \<Rightarrow> bool" where
  "valid_request req = (length (req_items req) \<ge> 1
     \<and> list_all (\<lambda>it. quantity it \<ge> 1) (req_items req)
     \<and> paymentMethod req \<in> set [''credit_card'', ''debit_card'', ''paypal''])"

text \<open>
  What a request brings from outside the state: the clock, the draws of the payment step,
  and \<open>to_numeric\<close>, the conversion the database applies to a JavaScript number bound to a
  \<open>DECIMAL(10, 2)\<close> column (\<open>None\<close> when it rejects the value; the driver then throws an
  error whose \<open>code\<close> is the SQLSTATE).
\<close>

record request_env =
  clock :: timestamp
  draw :: payment_draw
  to_numeric :: "jsnum \<Rightarrow> decimal2 option"

record product_detail =
  pd_productId :: int
  pd_quantity :: int
  pd_price :: decimal2
  pd_name :: string
  pd_sku :: string
  itemTotal :: jsnum

text \<open>
  A row of \<open>SELECT o.*, u.email, u.name as user_name FROM orders o JOIN users u ON
  o.user_id = u.id WHERE o.id = $1\<close>, and the body of the 201 response: the properties of
  that row (none if the query returned no row), \<open>items\<close> and \<open>payment\<close>.
\<close>

record order_row =
  or_id :: int
  or_order :: order
  or_email :: string
  or_user_name :: string

definition select_order :: "database \<Rightarrow> int \<Rightarrow> order_row option" where
  "select_order d oid = (case orders d oid of
       None \<Rightarrow> None
     | Some ord \<Rightarrow> (case users d (o_user_id ord) of
         None \<Rightarrow> None
       | Some u \<Rightarrow> Some \<lparr>or_id = oid, or_order = ord, or_email = u_email u,
                          or_user_name = u_name u\<rparr>))"

record order_response =
  res_status :: int
  res_row :: "order_row option"
  res_items :: "product_detail list"
  res_payment :: payment_result

definition not_found :: "string \<Rightarrow> js_error" where
  "not_found msg = (Error msg)\<lparr>code := Some ''NOT_FOUND'', statusCode := Some 404\<rparr>"

text \<open>Step 2: the loop that looks every product up and accumulates \<open>totalAmount\<close>.\<close>

fun price_items :: "database \<Rightarrow> item list \<Rightarrow> jsnum \<Rightarrow> product_detail list
    \<Rightarrow> js_error + jsnum \<times> product_detail list" where
  "price_items d [] totalAmount productDetails = Inr (totalAmount, productDetails)"
| "price_items d (it # its) totalAmount productDetails = (case products d (productId it) of
       None \<Rightarrow> Inl (not_found (''Product '' @ show_int (productId it) @ '' not found''))
     | Some p \<Rightarrow>
         let itemTotal = js_mult (parseFloat (p_price p)) (to_number (quantity it))
         in price_items d its (js_add totalAmount itemTotal)
              (productDetails @ [\<lparr>pd_productId = productId it, pd_quantity = quantity it,
                 pd_price = p_price p, pd_name = p_name p, pd_sku = p_sku p,
                 itemTotal = itemTotal\<rparr>]))"

text \<open>Step 4: the two \<open>INSERT\<close> statements of the transaction.\<close>

definition insert_order :: "database \<Rightarrow> request_env \<Rightarrow> int \<Rightarrow> jsnum \<Rightarrow> string
    \<Rightarrow> js_error + int \<times> database" where
  "insert_order d env uid totalAmount method = (case to_numeric env totalAmount of
       None \<Rightarrow> Inl ((Error ''numeric field overflow'')\<lparr>code := Some ''22003''\<rparr>)
     | Some amount \<Rightarrow>
         let oid = next_order_id d
         in Inr (oid, d\<lparr>orders := (orders d)(oid \<mapsto>
               \<lparr>o_user_id = uid, o_status = ''pending'', o_total_amount = amount,
                o_payment_method = method, o_payment_status = ''pending'',
                o_created_at = clock env, o_updated_at = clock env\<rparr>),
              next_order_id := oid + 1\<rparr>))"

fun insert_order_items :: "database \<Rightarrow> timestamp \<Rightarrow> int \<Rightarrow> product_detail list \<Rightarrow> database" where
  "insert_order_items d t oid [] = d"
| "insert_order_items d t oid (pd # pds) =
     insert_order_items
       (d\<lparr>order_items := order_items d
             @ [\<lparr>oi_id = next_item_id d, oi_order_id = oid, oi_product_id = pd_productId pd,
                 oi_quantity = pd_quantity pd, oi_price = pd_price pd, oi_created_at = t\<rparr>],
          next_item_id := next_item_id d + 1\<rparr>)
       t oid pds"

text \<open>The statements \<open>UPDATE orders SET ... WHERE id = $n\<close> of steps 5 and 6.\<close>

definition set_order_status :: "database \<Rightarrow> timestamp \<Rightarrow> int \<Rightarrow> string \<Rightarrow> database" where
  "set_order_status d t oid st = (case orders d oid of
       None \<Rightarrow> d
     | Some ord \<Rightarrow> d\<lparr>orders := (orders d)(oid \<mapsto> ord\<lparr>o_status := st, o_updated_at := t\<rparr>)\<rparr>)"

definition set_order_payment :: "database \<Rightarrow> timestamp \<Rightarrow> int \<Rightarrow> string \<Rightarrow> string \<Rightarrow> database" where
  "set_order_payment d t oid pst st = (case orders d oid of
       None \<Rightarrow> d
     | Some ord \<Rightarrow> d\<lparr>orders := (orders d)(oid \<mapsto>
         ord\<lparr>o_payment_status := pst, o_status := st, o_updated_at := t\<rparr>)\<rparr>)"

text \<open>
  Steps 5 to 7 of \<open>POST /\<close>, entered once the order row exists: reserve, pay, and read the
  order back.
\<close>

definition fulfil_order :: "request_env \<Rightarrow> world \<Rightarrow> order_request \<Rightarrow> int \<Rightarrow> jsnum
    \<Rightarrow> product_detail list \<Rightarrow> (js_error + order_response) \<times> world" where
  "fulfil_order env w req orderId totalAmount productDetails =
     (case reserveInventory w (clock env) orderId (req_items req) of
        (Inl error, w1) \<Rightarrow>
          (Inl error, w1\<lparr>db := set_order_status (db w1) (clock env) orderId ''failed''\<rparr>)
      | (Inr _, w1) \<Rightarrow>
          (case processPayment w1 (draw env) orderId totalAmount (paymentMethod req) of
             (Inl error, w2) \<Rightarrow>
               (case releaseInventory w2 (clock env) orderId (req_items req) of
                  (Inl error', w3) \<Rightarrow> (Inl error', w3)
                | (Inr _, w3) \<Rightarrow>
                    (Inl error, w3\<lparr>db := set_order_payment (db w3) (clock env) orderId
                                           ''failed'' ''cancelled''\<rparr>))
           | (Inr paymentResult, w2) \<Rightarrow>
               (let w3 = w2\<lparr>db := set_order_payment (db w2) (clock env) orderId
                                      ''completed'' ''confirmed''\<rparr>
                in (Inr \<lparr>res_status = 201, res_row = select_order (db w3) orderId,
                          res_items = productDetails, res_payment = paymentResult\<rparr>, w3))))"

definition insufficient_inventory :: "check_entry list \<Rightarrow> js_error" where
  "insufficient_inventory unavailableItems =
     (Error ''Insufficient inventory for one or more items'')
       \<lparr>code := Some ''INSUFFICIENT_INVENTORY'', statusCode := Some 409,
        details := Some unavailableItems\<rparr>"

text \<open>
  Steps 1 to 4 of \<open>POST /\<close>: the user, the products and the total, the inventory check, and
  the transaction that writes the order and its items. The result is the identifier of the
  order, \<open>totalAmount\<close> and \<open>productDetails\<close>. A failure inside the transaction rolls it back
  and is thrown.
\<close>

definition place_order :: "request_env \<Rightarrow> world \<Rightarrow> order_request
    \<Rightarrow> (js_error + int \<times> jsnum \<times> product_detail list) \<times> world" where
  "place_order env w req = (case users (db w) (userId req) of
       None \<Rightarrow> (Inl (not_found ''User not found''), w)
     | Some u \<Rightarrow>
         (case price_items (db w) (req_items req) (Fin 0) [] of
            Inl error \<Rightarrow> (Inl error, w)
          | Inr (totalAmount, productDetails) \<Rightarrow>
              (case checkInventory w (req_items req) of
                 (inventoryCheck, w0) \<Rightarrow>
                   if \<not> cr_available inventoryCheck
                   then (Inl (insufficient_inventory
                           (filter (\<lambda>i. \<not> sufficient i) (cr_items inventoryCheck))), w0)
                   else
                     (case insert_order (db w0) env (userId req) totalAmount (paymentMethod req) of
                        Inl error \<Rightarrow> (Inl error, w0)
                      | Inr (orderId, d1) \<Rightarrow>
                          (Inr (orderId, totalAmount, productDetails),
                           w0\<lparr>db := insert_order_items d1 (clock env) orderId productDetails\<rparr>)))))"

text \<open>The handler of \<open>POST /\<close> after validation.\<close>

definition create_order :: "request_env \<Rightarrow> world \<Rightarrow> order_request
    \<Rightarrow> (js_error + order_response) \<times> world" where
  "create_order env w req = (case place_order env w req of
       (Inl error, w1) \<Rightarrow> (Inl error, w1)
     | (Inr (orderId, totalAmount, productDetails), w1) \<Rightarrow>
         fulfil_order env w1 req orderId totalAmount productDetails)"

text \<open>
  The route \<open>POST /\<close>: \<open>handleValidationErrors\<close> answers 400 itself when the chain found an
  error; otherwise the handler runs, and what it throws goes to \<open>errorHandler\<close>.
\<close>

datatype 'a http_result = Rejected int string string | Thrown js_error | Sent 'a

definition post_orders :: "request_env \<Rightarrow> world \<Rightarrow> order_request
    \<Rightarrow> order_response http_result \<times> world" where
  "post_orders env w req =
     (if \<not> valid_request req then (Rejected 400 ''Validation failed'' ''VALIDATION_ERROR'', w)
      else (case create_order env w req of
              (Inl error, w') \<Rightarrow> (Thrown error, w')
            | (Inr res, w') \<Rightarrow> (Sent res, w')))"

subsection \<open>Reading an order\<close>

text \<open>
  The rows as the driver returns them: an \<open>INTEGER\<close> is a number, a \<open>DECIMAL\<close> its text, a
  \<open>TIMESTAMP\<close> a \<open>Date\<close>.
\<close>

definition order_row_js :: "order_row \<Rightarrow> (string \<times> jsval) list" where
  "order_row_js r = (let ord = or_order r in
     [(''id'', JNum (to_number (or_id r))),
      (''user_id'', JNum (to_number (o_user_id ord))),
      (''status'', JStr (o_status ord)),
      (''total_amount'', JStr (show_decimal (o_total_amount ord))),
      (''payment_method'', JStr (o_payment_method ord)),
      (''payment_status'', JStr (o_payment_status ord)),
      (''created_at'', JDate (o_created_at ord)),
      (''updated_at'', JDate (o_updated_at ord)),
      (''email'', JStr (or_email r)),
      (''user_name'', JStr (or_user_name r))])"

text \<open>
  \<open>SELECT oi.*, p.sku, p.name as product_name FROM order_items oi JOIN products p ON
  oi.product_id = p.id WHERE oi.order_id = $1\<close>.
\<close>

definition select_order_items :: "database \<Rightarrow> int \<Rightarrow> jsval list" where
  "select_order_items d oid = concat (map (\<lambda>oi.
       if oi_order_id oi = oid then
         (case products d (oi_product_id oi) of
            None \<Rightarrow> []
          | Some p \<Rightarrow> [JObj
              [(''id'', JNum (to_number (oi_id oi))),
               (''order_id'', JNum (to_number (oi_order_id oi))),
               (''product_id'', JNum (to_number (oi_product_id oi))),
               (''quantity'', JNum (to_number (oi_quantity oi))),
               (''price'', JStr (show_decimal (oi_price oi))),
               (''created_at'', JDate (oi_created_at oi)),
               (''sku'', JStr (p_sku p)),
               (''product_name'', JStr (p_name p))]])
       else []) (order_items d))"

record get_response =
  g_order :: jsval
  g_cached :: bool

text \<open>
  The handler of \<open>GET /:id\<close>. Its argument is \<open>parseInt(req.params.id, 10)\<close>, \<open>None\<close> for
  \<open>NaN\<close>.
\<close>

definition get_order :: "world \<Rightarrow> int option \<Rightarrow> (js_error + get_response) \<times> world" where
  "get_order w param = (case param of
       None \<Rightarrow> (Inl ((Error ''Invalid order ID'')
                  \<lparr>code := Some ''VALIDATION_ERROR'', statusCode := Some 400\<rparr>), w)
     | Some orderId \<Rightarrow>
         let cacheKey = ''order:'' @ show_int orderId;
             cached = cache_get (cache w) cacheKey
         in if truthy cached then (Inr \<lparr>g_order = cached, g_cached = True\<rparr>, w)
            else (case select_order (db w) orderId of
                    None \<Rightarrow> (Inl (not_found ''Order not found''), w)
                  | Some r \<Rightarrow>
                      let ord = JObj (order_row_js r
                                  @ [(''items'', JArr (select_order_items (db w) orderId))])
                      in (case cache_set (cache w) cacheKey ord of
                            Inl error \<Rightarrow> (Inl error, w)
                          | Inr c' \<Rightarrow>
                              (Inr \<lparr>g_order = ord, g_cached = False\<rparr>, w\<lparr>cache := c'\<rparr>))))"

text \<open>The body \<open>res.json\<close> sends for \<open>{ order, cached }\<close>.\<close>

definition res_json :: "get_response \<Rightarrow> json option" where
  "res_json r = stringify (JObj [(''order'', g_order r), (''cached'', JBool (g_cached r))])"

section \<open>Error handler\<close>

record error_response =
  er_status :: int
  er_message :: string
  er_code :: string
  er_stack :: "string option"

text \<open>\<open>errorHandler\<close>; its first argument is \<open>process.env.NODE_ENV\<close>.\<close>

definition errorHandler :: "string option \<Rightarrow> js_error \<Rightarrow> error_response" where
  "errorHandler node_env err =
     (let statusCode0 = (case statusCode err of
                           None \<Rightarrow> 500
                         | Some n \<Rightarrow> if n = 0 then 500 else n);
          statusCode1 =
            (if code err = Some ''PAYMENT_FAILED'' then 422
             else if code err = Some ''INSUFFICIENT_INVENTORY'' then 409
             else if code err = Some ''NOT_FOUND'' then 404
             else if code err = Some ''VALIDATION_ERROR'' then 400
             else statusCode0)
      in \<lparr>er_status = statusCode1,
          er_message = message err,
          er_code = (case code err of
                       None \<Rightarrow> ''INTERNAL_ERROR''
                     | Some c \<Rightarrow> if c = [] then ''INTERNAL_ERROR'' else c),
          er_stack = (if node_env = Some ''development'' then stack err else None)\<rparr>)"

section \<open>Notions used in the properties\<close>

text \<open>The stock of a product, if the product exists.\<close>

definition stock_of :: "database \<Rightarrow> int \<Rightarrow> int option" where
  "stock_of d pid = map_option stock_quantity (products d pid)"

text \<open>The total quantity a list of items asks of one product.\<close>

definition requested :: "item list \<Rightarrow> int \<Rightarrow> int" where
  "requested its pid = sum_list (map quantity (filter (\<lambda>it. productId it = pid) its))"

definition nonneg_stock :: "database \<Rightarrow> bool" where
  "nonneg_stock d = (\<forall>pid p. products d pid = Some p \<longrightarrow> 0 \<le> stock_quantity p)"

text \<open>
  The exact total of a list of items: the sum of unit price times quantity, as a rational.
\<close>

definition line_total :: "database \<Rightarrow> item \<Rightarrow> rat" where
  "line_total d it = (case products d (productId it) of
       None \<Rightarrow> 0
     | Some p \<Rightarrow> of_int (p_price p) / 100 * of_int (quantity it))"

definition exact_total :: "database \<Rightarrow> item list \<Rightarrow> rat" where
  "exact_total d its = sum_list (map (line_total d) its)"

text \<open>The same sum in hundredths.\<close>

definition cents_total :: "database \<Rightarrow> item list \<Rightarrow> int" where
  "cents_total d its = sum_list (map (\<lambda>it. case products d (productId it) of
       None \<Rightarrow> 0 | Some p \<Rightarrow> p_price p * quantity it) its)"

text \<open>The unit roundoff of binary64, half the distance from 1 to the next number.\<close>

definition unit_roundoff :: rat where
  "unit_roundoff = 1 / 2 ^ 53"

subsection \<open>Sample data\<close>

text \<open>A store with one user and two products of the seed data.\<close>

definition laptop :: product where
  "laptop = \<lparr>p_sku = ''LAPTOP-001'', p_name = ''Premium Laptop'', p_price = 129999,
     stock_quantity = 50, p_updated_at = ''2024-01-01T00:00:00.000Z''\<rparr>"

definition phone :: product where
  "phone = \<lparr>p_sku = ''PHONE-001'', p_name = ''Smartphone Pro'', p_price = 89999,
     stock_quantity = 100, p_updated_at = ''2024-01-01T00:00:00.000Z''\<rparr>"

definition shop :: database where
  "shop = \<lparr>users = [1 \<mapsto> \<lparr>u_email = ''john@example.com'', u_name = ''John Doe''\<rparr>],
     products = [1 \<mapsto> laptop, 2 \<mapsto> phone],
     orders = Map.empty, order_items = [], next_order_id = 1, next_item_id = 1\<rparr>"

definition shop_world :: world where
  "shop_world = \<lparr>db = shop, cache = Map.empty, payment_calls = []\<rparr>"

text \<open>
  Requests and what they bring: the database stores \<open>amount\<close> for the total, and the payment
  draw \<open>1 / 20\<close> is below the failure threshold.
\<close>

definition sample_env :: "decimal2 \<Rightarrow> request_env" where
  "sample_env amount = \<lparr>clock = ''2024-06-01T12:00:00.000Z'',
     draw = \<lparr>fail_draw = 1 / 20, reason_draw = 1 / 2, txn = ''txn_1_abc'',
             paid_at = ''2024-06-01T12:00:01.000Z''\<rparr>,
     to_numeric = (\<lambda>x. Some amount)\<rparr>"

definition twice_laptop :: order_request where
  "twice_laptop = \<lparr>userId = 1,
     req_items = [\<lparr>productId = 1, quantity = 30\<rparr>, \<lparr>productId = 1, quantity = 30\<rparr>],
     paymentMethod = ''credit_card''\<rparr>"


definition one_phone :: order_request where
  "one_phone = \<lparr>userId = 1, req_items = [\<lparr>productId = 2, quantity = 1\<rparr>],
     paymentMethod = ''credit_card''\<rparr>"


text \<open>
  The store after one confirmed order, and the value of that order as \<open>GET /:id\<close> reads it
  from the store and as it comes back from the cache.
\<close>

definition sample_order :: order where
  "sample_order = \<lparr>o_user_id = 1, o_status = ''confirmed'', o_total_amount = 129999,
     o_payment_method = ''credit_card'', o_payment_status = ''completed'',
     o_created_at = ''2024-06-01T12:00:00.000Z'', o_updated_at = ''2024-06-01T12:00:01.000Z''\<rparr>"

definition shop_with_order :: world where
  "shop_with_order = shop_world\<lparr>db := shop\<lparr>orders := [1 \<mapsto> sample_order],
     order_items := [\<lparr>oi_id = 1, oi_order_id = 1, oi_product_id = 1, oi_quantity = 1,
                      oi_price = 129999, oi_created_at = ''2024-06-01T12:00:00.000Z''\<rparr>],
     next_order_id := 2, next_item_id := 2\<rparr>\<rparr>"

definition order_from_store :: jsval where
  "order_from_store = JObj
     [(''id'', JNum (Fin 1)), (''user_id'', JNum (Fin 1)), (''status'', JStr ''confirmed''),
      (''total_amount'', JStr ''1299.99''), (''payment_method'', JStr ''credit_card''),
      (''payment_status'', JStr ''completed''),
      (''created_at'', JDate ''2024-06-01T12:00:00.000Z''),
      (''updated_at'', JDate ''2024-06-01T12:00:01.000Z''),
      (''email'', JStr ''john@example.com''), (''user_name'', JStr ''John Doe''),
      (''items'', JArr [JObj
         [(''id'', JNum (Fin 1)), (''order_id'', JNum (Fin 1)), (''product_id'', JNum (Fin 1)),
          (''quantity'', JNum (Fin 1)), (''price'', JStr ''1299.99''),
          (''created_at'', JDate ''2024-06-01T12:00:00.000Z''),
          (''sku'', JStr ''LAPTOP-001''), (''product_name'', JStr ''Premium Laptop'')]])]"

definition order_from_cache :: jsval where
  "order_from_cache = JObj
     [(''id'', JNum (Fin 1)), (''user_id'', JNum (Fin 1)), (''status'', JStr ''confirmed''),
      (''total_amount'', JStr ''1299.99''), (''payment_method'', JStr ''credit_card''),
      (''payment_status'', JStr ''completed''),
      (''created_at'', JStr ''2024-06-01T12:00:00.000Z''),
      (''updated_at'', JStr ''2024-06-01T12:00:01.000Z''),
      (''email'', JStr ''john@example.com''), (''user_name'', JStr ''John Doe''),
      (''items'', JArr [JObj
         [(''id'', JNum (Fin 1)), (''order_id'', JNum (Fin 1)), (''product_id'', JNum (Fin 1)),
          (''quantity'', JNum (Fin 1)), (''price'', JStr ''1299.99''),
          (''created_at'', JStr ''2024-06-01T12:00:00.000Z''),
          (''sku'', JStr ''LAPTOP-001''), (''product_name'', JStr ''Premium Laptop'')]])]"

definition three_laptops :: order_request where
  "three_laptops = \<lparr>userId = 1, req_items = [\<lparr>productId = 1, quantity = 3\<rparr>],
     paymentMethod = ''credit_card''\<rparr>"

text \<open>A request environment whose database rounds a number to the nearest hundredth.\<close>

definition rounding_env :: request_env where
  "rounding_env = \<lparr>clock = ''2024-06-01T12:00:00.000Z'',
     draw = \<lparr>fail_draw = 1 / 2, reason_draw = 1 / 2, txn = ''txn_1_abc'',
             paid_at = ''2024-06-01T12:00:01.000Z''\<rparr>,
     to_numeric = (\<lambda>x. case x of Fin t \<Rightarrow> Some (round (t * 100)) | _ \<Rightarrow> None)\<rparr>"

section \<open>JavaScript numbers: properties\<close>

lemma pos_quotient:
  assumes "0 < x" and "quotient_of x = (a, b)"
  shows "0 < a" "0 < b" "x = of_int a / of_int b"
proof -
  show b: "0 < b" using assms(2) by (rule quotient_of_denom_pos)
  show x: "x = of_int a / of_int b" using assms(2) by (rule quotient_of_div)
  show "0 < a"
    using assms(1) b x by (simp add: zero_less_divide_iff)
qed

lemma bitlen_powi:
  assumes "0 < a"
  shows "(2::rat) powi (bitlen a - 1) \<le> of_int a" "of_int a < (2::rat) powi (bitlen a)"
proof -
  from bitlen_bounds [OF assms]
  have lo: "2 ^ nat (bitlen a - 1) \<le> a" and hi: "a < 2 ^ nat (bitlen a)" by auto
  have ge1: "1 \<le> bitlen a" using assms bitlen_eq_zero_iff [of a] bitlen_nonneg [of a] by linarith
  have "(2::rat) powi (bitlen a - 1) = 2 ^ nat (bitlen a - 1)"
    using ge1 by (simp add: power_int_def)
  also have "\<dots> = of_int (2 ^ nat (bitlen a - 1))" by simp
  also have "\<dots> \<le> of_int a" using lo by (simp only: of_int_le_iff)
  finally show "(2::rat) powi (bitlen a - 1) \<le> of_int a" .
  have "(of_int a :: rat) < of_int (2 ^ nat (bitlen a))" using hi by (simp only: of_int_less_iff)
  also have "\<dots> = 2 ^ nat (bitlen a)" by simp
  also have "\<dots> = (2::rat) powi (bitlen a)" using ge1 by (simp add: power_int_def)
  finally show "of_int a < (2::rat) powi (bitlen a)" .
qed

lemma ilog2_bounds:
  assumes "x \<noteq> 0"
  shows "2 powi (ilog2 x) \<le> \<bar>x\<bar>" and "\<bar>x\<bar> < 2 powi (ilog2 x + 1)"
proof -
  obtain a b where q: "quotient_of \<bar>x\<bar> = (a, b)" by (cases "quotient_of \<bar>x\<bar>")
  have pos: "0 < \<bar>x\<bar>" using assms by simp
  note ab = pos_quotient [OF pos q]
  define d where "d = bitlen a - bitlen b"
  have bpos: "(0::rat) < of_int b" using ab(2) by simp
  have lower: "2 powi (d - 1) < \<bar>x\<bar>"
  proof -
    have "(2::rat) powi (d - 1) = 2 powi (bitlen a - 1) / 2 powi (bitlen b)"
      unfolding d_def by (simp flip: power_int_diff) (simp add: algebra_simps)
    also have "\<dots> \<le> of_int a / 2 powi (bitlen b)"
      using bitlen_powi(1) [OF ab(1)] by (simp add: divide_right_mono)
    also have "\<dots> < of_int a / of_int b"
      using bitlen_powi(2) [OF ab(2)] ab(1) bpos
      by (intro divide_strict_left_mono) (auto intro: mult_pos_pos)
    finally show ?thesis using ab(3) by simp
  qed
  have upper: "\<bar>x\<bar> < 2 powi (d + 1)"
  proof -
    have "\<bar>x\<bar> = of_int a / of_int b" by (rule ab(3))
    also have "\<dots> < 2 powi (bitlen a) / of_int b"
      using bitlen_powi(2) [OF ab(1)] bpos by (simp add: divide_strict_right_mono)
    also have "\<dots> \<le> 2 powi (bitlen a) / 2 powi (bitlen b - 1)"
      using bitlen_powi(1) [OF ab(2)] bpos
      by (intro divide_left_mono) (auto intro!: mult_pos_pos)
    also have "\<dots> = 2 powi (d + 1)"
      unfolding d_def by (simp flip: power_int_diff) (simp add: algebra_simps)
    finally show ?thesis .
  qed
  have il: "ilog2 x = (if 2 powi d \<le> \<bar>x\<bar> then d else d - 1)"
    using q by (simp add: ilog2_def d_def Let_def)
  show "2 powi (ilog2 x) \<le> \<bar>x\<bar>" using il lower by (auto simp: less_imp_le)
  show "\<bar>x\<bar> < 2 powi (ilog2 x + 1)" using il upper by auto
qed

lemma round_half_even_of_int: "round_half_even (of_int k) = k"
  by (simp add: round_half_even_def)

lemma round_half_even_near: "\<bar>of_int (round_half_even m) - m\<bar> \<le> 1 / 2"
proof -
  have "of_int \<lfloor>m\<rfloor> \<le> m" "m < of_int \<lfloor>m\<rfloor> + 1" by linarith+
  then show ?thesis
    by (auto simp: round_half_even_def Let_def abs_le_iff)
qed


lemma fl_unfold:
  assumes "x \<noteq> 0" and "- 1022 \<le> ilog2 x"
    and "r = of_int (round_half_even (x / 2 powi (ilog2 x - 52))) * 2 powi (ilog2 x - 52)"
    and "\<bar>r\<bar> < 2 ^ 1024"
  shows "fl x = Fin r"
proof -
  have m: "max (ilog2 x) (- 1022) = ilog2 x" using assms(2) by simp
  have "r < 2 ^ 1024" "- (2 ^ 1024) < r" using assms(4) by (auto simp: abs_less_iff)
  then have "\<not> 2 ^ 1024 \<le> r" "\<not> r \<le> - (2 ^ 1024)" by auto
  then show ?thesis
    using assms(1) m assms(3) by (simp add: fl_def Let_def)
qed

lemma fl_of_int:
  assumes "\<bar>n\<bar> < 2 ^ 53"
  shows "fl (of_int n) = Fin (of_int n)"
proof (cases "n = 0")
  case True
  then show ?thesis by (simp add: fl_def)
next
  case False
  define x :: rat where "x = of_int n"
  have x0: "x \<noteq> 0" using False by (simp add: x_def)
  have ax: "\<bar>x\<bar> = of_int \<bar>n\<bar>" by (simp add: x_def)
  have x1: "1 \<le> \<bar>x\<bar>" using False unfolding ax by (simp only: of_int_1_le_iff)
  have x2: "\<bar>x\<bar> < 2 powi 53"
  proof -
    have "(of_int \<bar>n\<bar> :: rat) < of_int (2 ^ 53)" using assms by (simp only: of_int_less_iff)
    then show ?thesis unfolding ax by simp
  qed
  have e_lo: "0 \<le> ilog2 x"
  proof (rule ccontr)
    assume "\<not> 0 \<le> ilog2 x"
    then have "ilog2 x + 1 \<le> 0" by simp
    then have "(2::rat) powi (ilog2 x + 1) \<le> 2 powi 0"
      by (intro power_int_increasing) auto
    with ilog2_bounds(2) [OF x0] x1 show False by simp
  qed
  have e_hi: "ilog2 x \<le> 52"
  proof (rule ccontr)
    assume "\<not> ilog2 x \<le> 52"
    then have "53 \<le> ilog2 x" by simp
    then have "(2::rat) powi 53 \<le> 2 powi (ilog2 x)"
      by (intro power_int_increasing) auto
    with ilog2_bounds(1) [OF x0] x2 show False by simp
  qed
  define k where "k = nat (52 - ilog2 x)"
  have q: "(2::rat) powi (ilog2 x - 52) = 1 / 2 ^ k"
  proof -
    have "ilog2 x - 52 = - int k" using e_hi by (simp add: k_def)
    then show ?thesis by (simp add: power_int_minus divide_inverse)
  qed
  have "x / 2 powi (ilog2 x - 52) = x * 2 ^ k"
    by (simp only: q) simp
  also have "\<dots> = of_int (n * 2 ^ k)" by (simp add: x_def)
  finally have m: "x / 2 powi (ilog2 x - 52) = of_int (n * 2 ^ k)" .
  have "rat_of_int (round_half_even (x / 2 powi (ilog2 x - 52))) * 2 powi (ilog2 x - 52)
      = rat_of_int (n * 2 ^ k) * (1 / 2 ^ k)"
    by (subst m) (simp only: round_half_even_of_int q)
  also have "\<dots> = x" by (simp add: x_def)
  finally have "rat_of_int (round_half_even (x / 2 powi (ilog2 x - 52))) * 2 powi (ilog2 x - 52) = x" .
  moreover have "\<bar>x\<bar> < 2 ^ 1024"
  proof -
    have "(2::rat) powi 53 \<le> 2 powi 1024" by (intro power_int_increasing) auto
    with x2 show ?thesis by simp
  qed
  ultimately have "fl x = Fin x"
    using x0 e_lo by (intro fl_unfold) auto
  then show ?thesis by (simp add: x_def)
qed

lemma fl_relative:
  assumes "2 powi (- 1022) \<le> \<bar>x\<bar>" and "\<bar>x\<bar> * (1 + 1 / 2 ^ 53) < 2 ^ 1024"
  shows "\<exists>r. fl x = Fin r \<and> \<bar>r - x\<bar> \<le> \<bar>x\<bar> / 2 ^ 53"
proof -
  have x0: "x \<noteq> 0"
  proof
    assume "x = 0"
    with assms(1) have "(2::rat) powi (- 1022) \<le> 0" by simp
    moreover have "(0::rat) < 2 powi (- 1022)" by (rule zero_less_power_int) simp
    ultimately show False by simp
  qed
  define e where "e = ilog2 x"
  define q :: rat where "q = 2 powi (e - 52)"
  define r where "r = of_int (round_half_even (x / q)) * q"
  have e_lo: "- 1022 \<le> e"
  proof (rule ccontr)
    assume "\<not> - 1022 \<le> e"
    then have "e + 1 \<le> - 1022" by simp
    then have "(2::rat) powi (e + 1) \<le> 2 powi (- 1022)"
      by (intro power_int_increasing) auto
    with ilog2_bounds(2) [OF x0] assms(1) show False by (simp add: e_def)
  qed
  have qpos: "0 < q" unfolding q_def by (rule zero_less_power_int) simp
  have "\<bar>r - x\<bar> = \<bar>of_int (round_half_even (x / q)) - x / q\<bar> * q"
  proof -
    have "r - x = (of_int (round_half_even (x / q)) - x / q) * q"
      using qpos by (simp add: r_def algebra_simps)
    then show ?thesis using qpos by (simp add: abs_mult)
  qed
  also have "\<dots> \<le> (1 / 2) * q"
    using round_half_even_near [of "x / q"] qpos by (intro mult_right_mono) auto
  also have "\<dots> = 2 powi e / 2 ^ 53"
  proof -
    have "q = 2 powi e / 2 powi 52" unfolding q_def by (simp add: power_int_diff)
    then show ?thesis by simp
  qed
  also have "\<dots> \<le> \<bar>x\<bar> / 2 ^ 53"
    using ilog2_bounds(1) [OF x0] by (simp add: e_def divide_right_mono)
  finally have err: "\<bar>r - x\<bar> \<le> \<bar>x\<bar> / 2 ^ 53" .
  have "\<bar>r\<bar> \<le> \<bar>x\<bar> + \<bar>r - x\<bar>" by simp
  also have "\<dots> \<le> \<bar>x\<bar> * (1 + 1 / 2 ^ 53)" using err by (simp add: algebra_simps)
  finally have "\<bar>r\<bar> < 2 ^ 1024" using assms(2) by simp
  then have "fl x = Fin r"
    using x0 e_lo by (intro fl_unfold) (auto simp: r_def q_def e_def)
  with err show ?thesis by blast
qed


lemma ilog2_eqI:
  assumes "2 powi e \<le> \<bar>x\<bar>" and "\<bar>x\<bar> < 2 powi (e + 1)"
  shows "ilog2 x = e"
proof -
  have x0: "x \<noteq> 0"
  proof
    assume "x = 0"
    with assms(1) have "(2::rat) powi e \<le> 0" by simp
    moreover have "(0::rat) < 2 powi e" by (rule zero_less_power_int) simp
    ultimately show False by simp
  qed
  have a: "(2::rat) powi e < 2 powi (ilog2 x + 1)"
    using assms(1) ilog2_bounds(2) [OF x0] by simp
  have b: "(2::rat) powi (ilog2 x) < 2 powi (e + 1)"
    using assms(2) ilog2_bounds(1) [OF x0] by simp
  have "e < ilog2 x + 1"
  proof (rule ccontr)
    assume "\<not> e < ilog2 x + 1"
    then have "(2::rat) powi (ilog2 x + 1) \<le> 2 powi e"
      by (intro power_int_increasing) auto
    with a show False by simp
  qed
  moreover have "ilog2 x < e + 1"
  proof (rule ccontr)
    assume "\<not> ilog2 x < e + 1"
    then have "(2::rat) powi (e + 1) \<le> 2 powi (ilog2 x)"
      by (intro power_int_increasing) auto
    with b show False by simp
  qed
  ultimately show ?thesis by simp
qed

lemma fl_eqI:
  assumes "2 powi e \<le> \<bar>x\<bar>" and "\<bar>x\<bar> < 2 powi (e + 1)" and "- 1022 \<le> e"
    and "r = of_int (round_half_even (x / 2 powi (e - 52))) * 2 powi (e - 52)"
    and "\<bar>r\<bar> < 2 ^ 1024"
  shows "fl x = Fin r"
proof -
  have e: "ilog2 x = e" using assms(1,2) by (rule ilog2_eqI)
  have "x \<noteq> 0"
  proof
    assume "x = 0"
    with assms(1) have "(2::rat) powi e \<le> 0" by simp
    moreover have "(0::rat) < 2 powi e" by (rule zero_less_power_int) simp
    ultimately show False by simp
  qed
  then show ?thesis
    using assms(3,4,5) e by (intro fl_unfold) auto
qed

lemma round_half_even_nearest:
  assumes "\<bar>of_int k - m\<bar> < 1 / 2"
  shows "round_half_even m = k"
proof -
  have f: "of_int \<lfloor>m\<rfloor> \<le> m" "m < of_int \<lfloor>m\<rfloor> + 1" by linarith+
  have k: "of_int k - 1 / 2 < m" "m < of_int k + 1 / 2"
    using assms by linarith+
  consider "\<lfloor>m\<rfloor> = k" | "\<lfloor>m\<rfloor> = k - 1"
  proof -
    have "of_int (k - 1) \<le> m" using k(1) by simp
    then have "k - 1 \<le> \<lfloor>m\<rfloor>" by (simp only: le_floor_iff)
    moreover have "m < of_int (k + 1)" using k(2) by simp
    then have "\<lfloor>m\<rfloor> < k + 1" by (simp only: floor_less_iff)
    ultimately have "\<lfloor>m\<rfloor> = k \<or> \<lfloor>m\<rfloor> = k - 1" by linarith
    then show ?thesis using that by blast
  qed
  then show ?thesis
  proof cases
    case 1
    with k show ?thesis by (simp add: round_half_even_def Let_def)
  next
    case 2
    with k show ?thesis by (simp add: round_half_even_def Let_def)
  qed
qed

lemma round_half_even_tie:
  assumes "m = of_int k + 1 / 2"
  shows "round_half_even m = (if even k then k else k + 1)"
proof -
  have "\<lfloor>m\<rfloor> = k" unfolding assms by (simp add: floor_eq_iff)
  then show ?thesis by (simp add: round_half_even_def Let_def assms)
qed

lemma fl_nearest:
  assumes "2 powi e \<le> \<bar>x\<bar>" and "\<bar>x\<bar> < 2 powi (e + 1)" and "- 1022 \<le> e"
    and "\<bar>of_int k - x / 2 powi (e - 52)\<bar> < 1 / 2"
    and "r = of_int k * 2 powi (e - 52)" and "\<bar>r\<bar> < 2 ^ 1024"
  shows "fl x = Fin r"
  using assms(1,2,3) _ assms(6)
  by (rule fl_eqI) (simp add: assms(5) round_half_even_nearest [OF assms(4)])

lemma fl_tie:
  assumes "2 powi e \<le> \<bar>x\<bar>" and "\<bar>x\<bar> < 2 powi (e + 1)" and "- 1022 \<le> e"
    and "x / 2 powi (e - 52) = of_int k + 1 / 2"
    and "r = of_int (if even k then k else k + 1) * 2 powi (e - 52)" and "\<bar>r\<bar> < 2 ^ 1024"
  shows "fl x = Fin r"
  using assms(1,2,3) _ assms(6)
  by (rule fl_eqI) (simp only: assms(5) round_half_even_tie [OF assms(4)])

lemma to_number_small: "\<bar>i\<bar> < 2 ^ 53 \<Longrightarrow> to_number i = Fin (of_int i)"
  by (simp add: to_number_def fl_of_int)

lemma fl_zero: "fl 0 = Fin 0"
  by (simp add: fl_def)

lemma round_half_even_ge:
  assumes "of_int K \<le> m"
  shows "K \<le> round_half_even m"
proof -
  have "K \<le> \<lfloor>m\<rfloor>" using assms by (simp only: le_floor_iff)
  then show ?thesis by (auto simp: round_half_even_def Let_def)
qed

lemma fl_ge_pow2:
  assumes "2 powi e0 \<le> x" and "- 1022 \<le> e0" and "fl x = Fin r"
  shows "2 powi e0 \<le> r"
proof -
  have xpos: "0 < x"
  proof -
    have "(0::rat) < 2 powi e0" by (rule zero_less_power_int) simp
    from this assms(1) show ?thesis by (rule less_le_trans)
  qed
  then have x0: "x \<noteq> 0" by simp
  define e where "e = ilog2 x"
  have e0e: "e0 \<le> e"
  proof (rule ccontr)
    assume "\<not> e0 \<le> e"
    then have "e + 1 \<le> e0" by simp
    then have "(2::rat) powi (e + 1) \<le> 2 powi e0" by (intro power_int_increasing) auto
    with ilog2_bounds(2) [OF x0] assms(1) xpos show False by (simp add: e_def)
  qed
  then have m: "max e (- 1022) = e" using assms(2) by simp
  define q :: rat where "q = 2 powi (e - 52)"
  have qpos: "0 < q" unfolding q_def by (rule zero_less_power_int) simp
  define r' where "r' = rat_of_int (round_half_even (x / q)) * q"
  have qe: "q * 2 ^ 52 = 2 powi e"
  proof -
    have "q = 2 powi e / 2 powi 52" unfolding q_def by (simp add: power_int_diff)
    then show ?thesis by simp
  qed
  have "rat_of_int (2 ^ 52) \<le> x / q"
  proof -
    have "2 powi e \<le> x" using ilog2_bounds(1) [OF x0] xpos by (simp add: e_def)
    then have "q * 2 ^ 52 \<le> x" using qe by simp
    then show ?thesis using qpos by (simp add: pos_le_divide_eq mult.commute)
  qed
  then have "2 ^ 52 \<le> round_half_even (x / q)" by (rule round_half_even_ge)
  then have "rat_of_int (2 ^ 52) \<le> rat_of_int (round_half_even (x / q))"
    by (simp only: of_int_le_iff)
  then have "rat_of_int (2 ^ 52) * q \<le> r'"
    unfolding r'_def using qpos by (intro mult_right_mono) auto
  then have "2 powi e \<le> r'" using qe by (simp add: mult.commute)
  moreover have "(2::rat) powi e0 \<le> 2 powi e" using e0e by (intro power_int_increasing) auto
  ultimately have ge: "2 powi e0 \<le> r'" by simp
  have "fl x = (if 2 ^ 1024 \<le> r' then PosInf else if r' \<le> - (2 ^ 1024) then NegInf else Fin r')"
    using x0 m by (simp add: fl_def Let_def e_def q_def r'_def)
  with assms(3) have "r = r'" by (auto split: if_splits)
  with ge show ?thesis by simp
qed

lemma fl_bounds:
  assumes "x = 0 \<or> 2 powi (- 7) \<le> x" and "x * (1 + unit_roundoff) < 2 ^ 1024"
  shows "\<exists>r. fl x = Fin r \<and> x * (1 - unit_roundoff) \<le> r \<and> r \<le> x * (1 + unit_roundoff)
           \<and> (r = 0 \<or> 2 powi (- 7) \<le> r)"
proof (cases "x = 0")
  case True
  then show ?thesis by (simp add: fl_zero)
next
  case False
  with assms(1) have x7: "2 powi (- 7) \<le> x" by simp
  have "(0::rat) < 2 powi (- 7)" by (rule zero_less_power_int) simp
  from this x7 have xpos: "0 < x" by (rule less_le_trans)
  have "(2::rat) powi (- 1022) \<le> 2 powi (- 7)" by (intro power_int_increasing) auto
  with x7 xpos have lo: "2 powi (- 1022) \<le> \<bar>x\<bar>" by simp
  have hi: "\<bar>x\<bar> * (1 + 1 / 2 ^ 53) < 2 ^ 1024"
    using assms(2) xpos by (simp add: unit_roundoff_def)
  from fl_relative [OF lo hi] obtain r where r: "fl x = Fin r" "\<bar>r - x\<bar> \<le> \<bar>x\<bar> / 2 ^ 53"
    by blast
  define d where "d = x * unit_roundoff"
  have err: "\<bar>r - x\<bar> \<le> d"
    using r(2) xpos by (simp add: d_def unit_roundoff_def)
  have "x * (1 - unit_roundoff) = x - d" "x * (1 + unit_roundoff) = x + d"
    by (simp_all add: d_def algebra_simps)
  moreover from err have "x - d \<le> r" "r \<le> x + d" by linarith+
  ultimately have "x * (1 - unit_roundoff) \<le> r" "r \<le> x * (1 + unit_roundoff)"
    by simp_all
  moreover have "2 powi (- 7) \<le> r" using x7 _ r(1) by (rule fl_ge_pow2) simp
  ultimately show ?thesis using r(1) by blast
qed


lemma roundoff_facts:
  "0 < 1 - unit_roundoff" "1 - unit_roundoff \<le> 1" "1 \<le> 1 + unit_roundoff" "0 < 1 + unit_roundoff"
  by (simp_all add: unit_roundoff_def)

lemma item_total_bounds:
  assumes "0 \<le> c" and "1 \<le> q" and "q < 2 ^ 53"
    and "of_int c / 100 * of_int q * (1 + unit_roundoff) ^ 2 < 2 ^ 1024"
  shows "\<exists>y. js_mult (parseFloat c) (to_number q) = Fin y
           \<and> of_int c / 100 * of_int q * (1 - unit_roundoff) ^ 2 \<le> y
           \<and> y \<le> of_int c / 100 * of_int q * (1 + unit_roundoff) ^ 2
           \<and> (y = 0 \<or> 2 powi (- 7) \<le> y)"
proof -
  define U where "U = 1 + unit_roundoff"
  define L where "L = 1 - unit_roundoff"
  have U: "1 \<le> U" "0 < U" and L: "0 < L" "L \<le> 1"
    using roundoff_facts by (simp_all add: U_def L_def)
  define p :: rat where "p = of_int c / 100"
  define n :: rat where "n = of_int q"
  have p0: "0 \<le> p" using assms(1) by (simp add: p_def)
  have n1: "1 \<le> n" using assms(2) by (simp add: n_def)
  then have n0: "0 \<le> n" by simp
  have U0: "0 \<le> U" and L0: "0 \<le> L" using U L by simp_all
  have noov: "p * n * U ^ 2 < 2 ^ 1024" using assms(4) by (simp add: p_def n_def U_def)
  have p7: "p = 0 \<or> 2 powi (- 7) \<le> p"
  proof (cases "c = 0")
    case True
    then show ?thesis by (simp add: p_def)
  next
    case False
    with assms(1) have "1 \<le> c" by simp
    then have "(1::rat) \<le> of_int c" by (simp only: of_int_1_le_iff)
    then have "(1::rat) / 100 \<le> p" by (simp add: p_def)
    moreover have "(2::rat) powi (- 7) \<le> 1 / 100" by (simp add: power_int_minus)
    ultimately show ?thesis by simp
  qed
  have pn: "p \<le> p * n" using p0 n1 by (simp add: mult_le_cancel_left1)
  have UU: "U \<le> U ^ 2" using U by (simp add: power2_eq_square)
  have "p * U \<le> (p * n) * U ^ 2"
    using pn UU p0 U by (intro mult_mono) auto
  with noov have "p * U < 2 ^ 1024" by simp
  from fl_bounds [OF p7 this [unfolded U_def]] obtain p' where
    p': "fl p = Fin p'" "p * L \<le> p'" "p' \<le> p * U" "p' = 0 \<or> 2 powi (- 7) \<le> p'"
    by (auto simp: U_def L_def)
  have p'0: "0 \<le> p'"
  proof -
    have "0 \<le> p * L" using p0 L by simp
    with p'(2) show ?thesis by simp
  qed
  have tn: "to_number q = Fin n"
    using assms(2,3) by (simp add: to_number_small n_def)
  have mult: "js_mult (parseFloat c) (to_number q) = fl (p' * n)"
    using p'(1) tn by (simp add: parseFloat_def p_def)
  have z7: "p' * n = 0 \<or> 2 powi (- 7) \<le> p' * n"
  proof (cases "p' = 0")
    case True
    then show ?thesis by simp
  next
    case False
    with p'(4) have "2 powi (- 7) \<le> p'" by simp
    moreover have "p' \<le> p' * n" using p'0 n1 by (simp add: mult_le_cancel_left1)
    ultimately have "2 powi (- 7) \<le> p' * n" by (rule order_trans)
    then show ?thesis by (rule disjI2)
  qed
  have zU: "p' * n * U \<le> p * n * U ^ 2"
  proof -
    have "p' * n \<le> (p * U) * n" using p'(3) n0 by (rule mult_right_mono)
    then have "p' * n * U \<le> (p * U) * n * U" using U0 by (rule mult_right_mono)
    then show ?thesis by (simp add: power2_eq_square algebra_simps)
  qed
  with noov have "p' * n * U < 2 ^ 1024" by simp
  from fl_bounds [OF z7 this [unfolded U_def]] obtain y where
    y: "fl (p' * n) = Fin y" "p' * n * L \<le> y" "y \<le> p' * n * U" "y = 0 \<or> 2 powi (- 7) \<le> y"
    by (auto simp: U_def L_def)
  have "p * n * L ^ 2 \<le> p' * n * L"
  proof -
    have "(p * L) * n \<le> p' * n" using p'(2) n0 by (rule mult_right_mono)
    then have "(p * L) * n * L \<le> p' * n * L" using L0 by (rule mult_right_mono)
    then show ?thesis by (simp add: power2_eq_square algebra_simps)
  qed
  with y(2) have lo: "p * n * L ^ 2 \<le> y" by simp
  from y(3) zU have hi: "y \<le> p * n * U ^ 2" by simp
  show ?thesis
    using mult y(1,4) lo hi by (simp add: p_def n_def U_def L_def)
qed


section \<open>Inventory service: properties\<close>

lemma decrement_stock_cases:
  "decrement_stock d now q pid = (r, d') \<Longrightarrow>
     ((\<forall>row. r \<noteq> Inr (Some row)) \<and> d' = d)
   \<or> (\<exists>p. products d pid = Some p \<and> q \<le> stock_quantity p
        \<and> r = Inr (Some (p\<lparr>stock_quantity := stock_quantity p - q, p_updated_at := now\<rparr>))
        \<and> d' = d\<lparr>products := (products d)(pid \<mapsto> p\<lparr>stock_quantity := stock_quantity p - q, p_updated_at := now\<rparr>)\<rparr>)"
  by (auto simp: decrement_stock_def Let_def split: option.splits if_splits)

lemma decrement_stock_error_code:
  "decrement_stock d now q pid = (Inl e, d') \<Longrightarrow> code e = Some ''22003''"
  by (auto simp: decrement_stock_def out_of_range_def Let_def split: option.splits if_splits)

lemma reserve_loop_stock:
  "reserve_loop d c now its = (Inr u, d', c') \<Longrightarrow>
     stock_of d' pid = map_option (\<lambda>s. s - requested its pid) (stock_of d pid)"
proof (induction its arbitrary: d c)
  case Nil
  then show ?case by (simp add: requested_def option.map_ident)
next
  case (Cons it its)
  obtain r d1 where dec: "decrement_stock d now (quantity it) (productId it) = (r, d1)"
    by (cases "decrement_stock d now (quantity it) (productId it)")
  with Cons.prems obtain row where r: "r = Inr (Some row)"
    by (cases r) (auto split: option.splits)
  from dec r obtain p where p: "products d (productId it) = Some p"
    and d1: "d1 = d\<lparr>products := (products d)(productId it \<mapsto>
               p\<lparr>stock_quantity := stock_quantity p - quantity it, p_updated_at := now\<rparr>)\<rparr>"
    using decrement_stock_cases [OF dec] by auto
  from Cons.prems dec r have
    "reserve_loop d1 (deletePattern (cache_del c (''product:'' @ show_int (productId it))) ''products:*'')
       now its = (Inr u, d', c')" by simp
  from Cons.IH [OF this] have
    "stock_of d' pid = map_option (\<lambda>s. s - requested its pid) (stock_of d1 pid)" .
  then show ?case using p d1
    by (cases "products d pid") (auto simp: stock_of_def requested_def)
qed

lemma increment_stock_stock:
  "stock_of (increment_stock d now q p0) pid
     = map_option (\<lambda>s. if pid = p0 then s + q else s) (stock_of d pid)"
  by (cases "products d p0"; cases "products d pid")
     (auto simp: stock_of_def increment_stock_def)

lemma release_loop_stock:
  "stock_of (fst (release_loop d c now its)) pid
     = map_option (\<lambda>s. s + requested its pid) (stock_of d pid)"
proof (induction its arbitrary: d c)
  case Nil
  then show ?case by (simp add: requested_def option.map_ident)
next
  case (Cons it its)
  have "stock_of (fst (release_loop d c now (it # its))) pid
      = map_option (\<lambda>s. s + requested its pid)
          (stock_of (increment_stock d now (quantity it) (productId it)) pid)"
    by (simp add: Cons.IH)
  also have "\<dots> = map_option (\<lambda>s. s + requested (it # its) pid) (stock_of d pid)"
    by (cases "stock_of d pid") (auto simp: increment_stock_stock requested_def)
  finally show ?case .
qed

lemma reserve_loop_append_fail:
  assumes "reserve_loop d c now pre = (Inr (), d1, c1)"
    and "\<forall>row. fst (decrement_stock d1 now (quantity it) (productId it)) \<noteq> Inr (Some row)"
  shows "reserve_loop d c now (pre @ it # post)
     = (Inl (case fst (decrement_stock d1 now (quantity it) (productId it)) of
               Inl error \<Rightarrow> error
             | Inr row \<Rightarrow> Error (''Failed to reserve inventory for product ''
                 @ show_int (productId it) @ '': insufficient stock'')), d1, c1)"
  using assms
proof (induction pre arbitrary: d c)
  case Nil
  then show ?case
    by (auto split: prod.splits option.splits sum.splits dest: decrement_stock_cases)
next
  case (Cons a pre)
  then show ?case by (auto split: prod.splits option.splits sum.splits)
qed

lemma reserve_loop_nonneg:
  "reserve_loop d c now its = (r, d', c') \<Longrightarrow> nonneg_stock d \<Longrightarrow> nonneg_stock d'"
proof (induction its arbitrary: d c)
  case Nil
  then show ?case by simp
next
  case (Cons it its)
  obtain r1 d1 where dec: "decrement_stock d now (quantity it) (productId it) = (r1, d1)"
    by (cases "decrement_stock d now (quantity it) (productId it)")
  have nn: "nonneg_stock d1"
    using decrement_stock_cases [OF dec] Cons.prems(2)
    by (auto simp: nonneg_stock_def split: if_splits)
  show ?case
  proof (cases "\<exists>row. r1 = Inr (Some row)")
    case False
    with Cons.prems dec have "d' = d1" by (auto split: sum.splits option.splits)
    with nn show ?thesis by simp
  next
    case True
    with Cons.prems dec show ?thesis using Cons.IH nn by auto
  qed
qed

lemma release_loop_nonneg:
  "list_all (\<lambda>it. 0 \<le> quantity it) its \<Longrightarrow> nonneg_stock d
     \<Longrightarrow> nonneg_stock (fst (release_loop d c now its))"
proof (induction its arbitrary: d c)
  case Nil
  then show ?case by simp
next
  case (Cons it its)
  have "nonneg_stock (increment_stock d now (quantity it) (productId it))"
    using Cons.prems
    by (auto simp: nonneg_stock_def increment_stock_def split: option.splits if_splits)
  with Cons show ?case by simp
qed


text \<open>
  C2, as stated, fails: \<open>stock_quantity\<close> is an \<open>INTEGER\<close> column, and for \<open>q \<le> s\<close> the
  difference \<open>s - q\<close> can leave the range of the type (\<open>q\<close> negative). The statement then
  fails with \<open>integer out of range\<close>, the reservation is rolled back and throws, and the stock
  is \<open>s\<close>, not \<open>s - q\<close>.
\<close>

theorem reserve_overflow_counterexample:
  "products (db shop_world) 1 = Some laptop \<and> stock_quantity laptop = 50
   \<and> int4 (- 2147483648) \<and> (- 2147483648::int) \<le> stock_quantity laptop
   \<and> fst (reserveInventory shop_world ''t'' 7 [\<lparr>productId = 1, quantity = - 2147483648\<rparr>])
       = Inl (out_of_range ''integer out of range'')
   \<and> products (db (snd (reserveInventory shop_world ''t'' 7
         [\<lparr>productId = 1, quantity = - 2147483648\<rparr>]))) 1 = Some laptop
   \<and> Some laptop \<noteq> Some (laptop\<lparr>stock_quantity := stock_quantity laptop - (- 2147483648),
                                 p_updated_at := ''t''\<rparr>)"
  by (simp add: reserveInventory_def decrement_stock_def int4_def shop_world_def shop_def
        laptop_def Let_def)

text \<open>
  C2, amended. A reservation of one item asking quantity \<open>q\<close> of a product whose stock is
  \<open>s\<close>, for \<open>q\<close> in the range of \<open>INTEGER\<close>: if \<open>q \<le> s\<close> and \<open>s - q\<close> is in the range, the call
  succeeds and the product's stock becomes \<open>s - q\<close>, which is not negative; this is the case
  whenever \<open>0 \<le> q \<le> s\<close> for a stock in the range. If \<open>q > s\<close> the call throws and the store is
  as before. If \<open>q \<le> s\<close> and \<open>s - q\<close> is outside the range, the call throws the error of the
  database and the store is as before; so it is for a \<open>q\<close> outside the range.
\<close>

theorem reserve_single_item:
  assumes "products (db w) pid = Some p"
  shows "(int4 q \<and> q \<le> stock_quantity p \<and> int4 (stock_quantity p - q) \<longrightarrow>
            fst (reserveInventory w now oid [\<lparr>productId = pid, quantity = q\<rparr>])
              = Inr \<lparr>rr_success = True, rr_orderId = oid, itemsReserved = 1\<rparr>
          \<and> products (db (snd (reserveInventory w now oid [\<lparr>productId = pid, quantity = q\<rparr>])))
              = (products (db w))(pid \<mapsto> p\<lparr>stock_quantity := stock_quantity p - q, p_updated_at := now\<rparr>)
          \<and> 0 \<le> stock_quantity p - q)
       \<and> (0 \<le> q \<and> q \<le> stock_quantity p \<and> int4 (stock_quantity p) \<longrightarrow>
            int4 q \<and> int4 (stock_quantity p - q))
       \<and> (int4 q \<and> stock_quantity p < q \<longrightarrow>
            fst (reserveInventory w now oid [\<lparr>productId = pid, quantity = q\<rparr>])
              = Inl (Error (''Failed to reserve inventory for product '' @ show_int pid
                       @ '': insufficient stock''))
          \<and> db (snd (reserveInventory w now oid [\<lparr>productId = pid, quantity = q\<rparr>])) = db w)
       \<and> (int4 q \<and> q \<le> stock_quantity p \<and> \<not> int4 (stock_quantity p - q) \<longrightarrow>
            fst (reserveInventory w now oid [\<lparr>productId = pid, quantity = q\<rparr>])
              = Inl (out_of_range ''integer out of range'')
          \<and> db (snd (reserveInventory w now oid [\<lparr>productId = pid, quantity = q\<rparr>])) = db w)
       \<and> (\<not> int4 q \<longrightarrow>
            (\<exists>error. fst (reserveInventory w now oid [\<lparr>productId = pid, quantity = q\<rparr>]) = Inl error)
          \<and> db (snd (reserveInventory w now oid [\<lparr>productId = pid, quantity = q\<rparr>])) = db w)"
proof -
  have range: "0 \<le> q \<and> q \<le> stock_quantity p \<and> int4 (stock_quantity p)
      \<longrightarrow> int4 q \<and> int4 (stock_quantity p - q)"
    by (auto simp: int4_def)
  show ?thesis
    using assms range by (simp add: reserveInventory_def decrement_stock_def Let_def)
qed

theorem reserve_single_item_witness:
  "products (db shop_world) 1 = Some laptop \<and> int4 (stock_quantity laptop)
   \<and> (0::int) \<le> 3 \<and> (3::int) \<le> stock_quantity laptop
   \<and> int4 3 \<and> int4 (stock_quantity laptop - 3)
   \<and> products (db (snd (reserveInventory shop_world ''t'' 7 [\<lparr>productId = 1, quantity = 3\<rparr>]))) 1
       = Some (laptop\<lparr>stock_quantity := 47, p_updated_at := ''t''\<rparr>)
   \<and> int4 10000 \<and> stock_quantity laptop < (10000::int)
   \<and> db (snd (reserveInventory shop_world ''t'' 7 [\<lparr>productId = 1, quantity = 10000\<rparr>])) = shop
   \<and> \<not> int4 (stock_quantity laptop - (- 2147483648))
   \<and> db (snd (reserveInventory shop_world ''t'' 7 [\<lparr>productId = 1, quantity = - 2147483648\<rparr>])) = shop
   \<and> \<not> int4 2147483648
   \<and> db (snd (reserveInventory shop_world ''t'' 7 [\<lparr>productId = 1, quantity = 2147483648\<rparr>])) = shop"
proof -
  have h: "products (db shop_world) 1 = Some laptop"
    by (simp add: shop_world_def shop_def)
  have s: "stock_quantity laptop = 50" by (simp add: laptop_def)
  have d: "db shop_world = shop" by (simp add: shop_world_def)
  have r: "int4 50" "int4 3" "int4 47" "int4 10000" "int4 (- 2147483648)"
    "\<not> int4 2147483698" "\<not> int4 2147483648"
    by (simp_all add: int4_def)
  show ?thesis
    using h s d r reserve_single_item [OF h, of 3 "''t''" 7]
      reserve_single_item [OF h, of 10000 "''t''" 7]
      reserve_single_item [OF h, of "- 2147483648" "''t''" 7]
      reserve_single_item [OF h, of 2147483648 "''t''" 7]
    by simp
qed

text \<open>
  C3. A reservation is all or nothing: when the items before \<open>it\<close> were decremented and the
  conditional decrement of \<open>it\<close> returns no row, the call throws and the store is the one
  before the call, the decrements of the earlier items included. So it is when the
  decrement of \<open>it\<close> fails with an error of the database, which is then the error thrown.
\<close>

theorem reserve_all_or_nothing:
  assumes "fst (reserve_loop (db w) (cache w) now pre) = Inr ()"
    and "\<forall>row. fst (decrement_stock (fst (snd (reserve_loop (db w) (cache w) now pre))) now
               (quantity it) (productId it)) \<noteq> Inr (Some row)"
  shows "(fst (decrement_stock (fst (snd (reserve_loop (db w) (cache w) now pre))) now
               (quantity it) (productId it)) = Inr None \<longrightarrow>
            fst (reserveInventory w now oid (pre @ it # post))
              = Inl (Error (''Failed to reserve inventory for product '' @ show_int (productId it)
                       @ '': insufficient stock'')))
       \<and> (\<forall>error. fst (decrement_stock (fst (snd (reserve_loop (db w) (cache w) now pre))) now
               (quantity it) (productId it)) = Inl error \<longrightarrow>
            fst (reserveInventory w now oid (pre @ it # post)) = Inl error)
       \<and> (\<exists>error. fst (reserveInventory w now oid (pre @ it # post)) = Inl error)
       \<and> db (snd (reserveInventory w now oid (pre @ it # post))) = db w"
proof -
  obtain d1 c1 where "reserve_loop (db w) (cache w) now pre = (Inr (), d1, c1)"
    using assms(1) by (cases "reserve_loop (db w) (cache w) now pre") auto
  with assms(2) show ?thesis
    by (simp add: reserveInventory_def reserve_loop_append_fail)
qed

theorem reserve_all_or_nothing_witness:
  "fst (reserve_loop (db shop_world) (cache shop_world) ''t'' [\<lparr>productId = 2, quantity = 5\<rparr>]) = Inr ()
   \<and> fst (decrement_stock
        (fst (snd (reserve_loop (db shop_world) (cache shop_world) ''t'' [\<lparr>productId = 2, quantity = 5\<rparr>])))
        ''t'' (quantity \<lparr>productId = 1, quantity = 51\<rparr>) (productId \<lparr>productId = 1, quantity = 51\<rparr>)) = Inr None
   \<and> fst (reserveInventory shop_world ''t'' 7
        ([\<lparr>productId = 2, quantity = 5\<rparr>] @ \<lparr>productId = 1, quantity = 51\<rparr> # []))
       = Inl (Error ''Failed to reserve inventory for product 1: insufficient stock'')
   \<and> db (snd (reserveInventory shop_world ''t'' 7
        ([\<lparr>productId = 2, quantity = 5\<rparr>] @ \<lparr>productId = 1, quantity = 51\<rparr> # []))) = shop
   \<and> fst (decrement_stock
        (fst (snd (reserve_loop (db shop_world) (cache shop_world) ''t'' [\<lparr>productId = 2, quantity = 5\<rparr>])))
        ''t'' (quantity \<lparr>productId = 1, quantity = - 2147483648\<rparr>)
        (productId \<lparr>productId = 1, quantity = - 2147483648\<rparr>))
       = Inl (out_of_range ''integer out of range'')
   \<and> fst (reserveInventory shop_world ''t'' 7
        ([\<lparr>productId = 2, quantity = 5\<rparr>] @ \<lparr>productId = 1, quantity = - 2147483648\<rparr> # []))
       = Inl (out_of_range ''integer out of range'')
   \<and> db (snd (reserveInventory shop_world ''t'' 7
        ([\<lparr>productId = 2, quantity = 5\<rparr>] @ \<lparr>productId = 1, quantity = - 2147483648\<rparr> # []))) = shop"
proof -
  have a: "fst (reserve_loop (db shop_world) (cache shop_world) ''t'' [\<lparr>productId = 2, quantity = 5\<rparr>]) = Inr ()"
    by (simp add: shop_world_def shop_def phone_def decrement_stock_def int4_def Let_def)
  have b: "fst (decrement_stock
        (fst (snd (reserve_loop (db shop_world) (cache shop_world) ''t'' [\<lparr>productId = 2, quantity = 5\<rparr>])))
        ''t'' (quantity \<lparr>productId = 1, quantity = 51\<rparr>) (productId \<lparr>productId = 1, quantity = 51\<rparr>)) = Inr None"
    by (simp add: shop_world_def shop_def phone_def laptop_def decrement_stock_def int4_def Let_def)
  then have b': "\<forall>row. fst (decrement_stock
        (fst (snd (reserve_loop (db shop_world) (cache shop_world) ''t'' [\<lparr>productId = 2, quantity = 5\<rparr>])))
        ''t'' (quantity \<lparr>productId = 1, quantity = 51\<rparr>) (productId \<lparr>productId = 1, quantity = 51\<rparr>))
          \<noteq> Inr (Some row)"
    by simp
  have c: "fst (decrement_stock
        (fst (snd (reserve_loop (db shop_world) (cache shop_world) ''t'' [\<lparr>productId = 2, quantity = 5\<rparr>])))
        ''t'' (quantity \<lparr>productId = 1, quantity = - 2147483648\<rparr>)
        (productId \<lparr>productId = 1, quantity = - 2147483648\<rparr>))
       = Inl (out_of_range ''integer out of range'')"
    by (simp add: shop_world_def shop_def phone_def laptop_def decrement_stock_def int4_def Let_def)
  then have c': "\<forall>row. fst (decrement_stock
        (fst (snd (reserve_loop (db shop_world) (cache shop_world) ''t'' [\<lparr>productId = 2, quantity = 5\<rparr>])))
        ''t'' (quantity \<lparr>productId = 1, quantity = - 2147483648\<rparr>)
        (productId \<lparr>productId = 1, quantity = - 2147483648\<rparr>))
          \<noteq> Inr (Some row)"
    by simp
  have d: "db shop_world = shop" by (simp add: shop_world_def)
  have t: "show_int 1 = ''1''" by (simp add: show_int_def digit_def)
  show ?thesis
    using a b c d t reserve_all_or_nothing [OF a b', of 7 "[]"]
      reserve_all_or_nothing [OF a c', of 7 "[]"]
    by simp
qed

text \<open>
  C4, as stated, fails for \<open>releaseInventory\<close>: its increment has no guard, so releasing a
  negative quantity from a state with non-negative stock leaves a negative stock.
\<close>

theorem release_negative_quantity_counterexample:
  "nonneg_stock (db shop_world)
   \<and> \<not> nonneg_stock (db (snd (releaseInventory shop_world ''t'' 7 [\<lparr>productId = 1, quantity = - 51\<rparr>])))"
proof -
  have a: "nonneg_stock (db shop_world)"
    by (auto simp: nonneg_stock_def shop_world_def shop_def laptop_def phone_def split: if_splits)
  have "products (db (snd (releaseInventory shop_world ''t'' 7 [\<lparr>productId = 1, quantity = - 51\<rparr>]))) 1
      = Some (laptop\<lparr>stock_quantity := - 1, p_updated_at := ''t''\<rparr>)"
    by (simp add: releaseInventory_def increment_stock_def shop_world_def shop_def laptop_def)
  then have "\<not> nonneg_stock (db (snd (releaseInventory shop_world ''t'' 7 [\<lparr>productId = 1, quantity = - 51\<rparr>])))"
    unfolding nonneg_stock_def by force
  with a show ?thesis by simp
qed

text \<open>
  C4, amended. From a state in which no stock is negative, \<open>checkInventory\<close>,
  \<open>reserveInventory\<close> and \<open>getInventoryLevel\<close> lead to such a state for all arguments, and
  \<open>releaseInventory\<close> does when no released quantity is negative (the order route only
  passes quantities of at least 1).
\<close>

theorem stock_never_negative:
  assumes "nonneg_stock (db w)"
  shows "nonneg_stock (db (snd (checkInventory w its)))
       \<and> nonneg_stock (db (snd (reserveInventory w now oid its)))
       \<and> (list_all (\<lambda>it. 0 \<le> quantity it) its
            \<longrightarrow> nonneg_stock (db (snd (releaseInventory w now oid its))))
       \<and> nonneg_stock (db (snd (getInventoryLevel w pid)))"
proof -
  have 1: "nonneg_stock (db (snd (checkInventory w its)))"
    using assms by (simp add: checkInventory_def Let_def)
  have 2: "nonneg_stock (db (snd (reserveInventory w now oid its)))"
  proof (cases "reserve_loop (db w) (cache w) now its")
    case (fields r d' c')
    then show ?thesis
      using assms reserve_loop_nonneg [OF fields]
      by (cases r) (simp_all add: reserveInventory_def)
  qed
  have 3: "nonneg_stock (db (snd (releaseInventory w now oid its)))"
    if "list_all (\<lambda>it. 0 \<le> quantity it) its"
    using release_loop_nonneg [OF that assms, of "cache w" now]
    by (auto simp: releaseInventory_def split: prod.splits)
  have 4: "nonneg_stock (db (snd (getInventoryLevel w pid)))"
    using assms by (simp add: getInventoryLevel_def split: option.splits)
  from 1 2 3 4 show ?thesis by blast
qed

theorem stock_never_negative_witness:
  "nonneg_stock (db shop_world)
   \<and> list_all (\<lambda>it. 0 \<le> quantity it) [\<lparr>productId = 1, quantity = 3\<rparr>]
   \<and> nonneg_stock (db (snd (reserveInventory shop_world ''t'' 7 [\<lparr>productId = 1, quantity = 3\<rparr>])))
   \<and> nonneg_stock (db (snd (releaseInventory shop_world ''t'' 7 [\<lparr>productId = 1, quantity = 3\<rparr>])))"
proof -
  have a: "nonneg_stock (db shop_world)"
    by (auto simp: nonneg_stock_def shop_world_def shop_def laptop_def phone_def split: if_splits)
  have b: "list_all (\<lambda>it. 0 \<le> quantity it) [\<lparr>productId = 1, quantity = 3\<rparr>]" by simp
  show ?thesis
    using a b stock_never_negative [OF a, of "[\<lparr>productId = 1, quantity = 3\<rparr>]" "''t''" 7 1]
    by blast
qed

text \<open>
  C10. When the product of the item at position \<open>i\<close> does not exist, the overall result of
  \<open>checkInventory\<close> has \<open>available = false\<close>, and the entry at position \<open>i\<close> has
  \<open>available: false\<close> and \<open>reason: 'product_not_found'\<close> and neither \<open>requested\<close> nor
  \<open>sufficient\<close>, which the entries of existing products have.
\<close>

theorem checkInventory_missing_product:
  assumes "i < length its"
    and "products (db w) (productId (its ! i)) = None"
  shows "cr_available (fst (checkInventory w its)) = False
       \<and> length (cr_items (fst (checkInventory w its))) = length its
       \<and> cr_items (fst (checkInventory w its)) ! i
           = \<lparr>ce_productId = productId (its ! i), ce_sku = None, ce_name = None,
              ce_requested = None, ce_available = AvailFlag False,
              ce_reason = Some ''product_not_found'', ce_sufficient = None\<rparr>
       \<and> (\<forall>j p. j < length its \<and> products (db w) (productId (its ! j)) = Some p \<longrightarrow>
            ce_requested (cr_items (fst (checkInventory w its)) ! j) = Some (quantity (its ! j))
          \<and> ce_sufficient (cr_items (fst (checkInventory w its)) ! j)
              = Some (quantity (its ! j) \<le> stock_quantity p))"
proof -
  have e: "check_item (db w) (its ! i)
      = \<lparr>ce_productId = productId (its ! i), ce_sku = None, ce_name = None,
              ce_requested = None, ce_available = AvailFlag False,
              ce_reason = Some ''product_not_found'', ce_sufficient = None\<rparr>"
    using assms(2) by (simp add: check_item_def)
  then have "\<not> sufficient (check_item (db w) (its ! i))"
    by (simp add: sufficient_def)
  moreover have "check_item (db w) (its ! i) \<in> set (map (check_item (db w)) its)"
    using assms(1) by force
  ultimately have "\<not> list_all sufficient (map (check_item (db w)) its)"
    by (auto simp: list_all_iff)
  then show ?thesis
    using e assms(1) by (simp add: checkInventory_def check_item_def Let_def)
qed

theorem checkInventory_missing_product_witness:
  "(1::nat) < length [\<lparr>productId = 1, quantity = 1\<rparr>, \<lparr>productId = 99, quantity = 1\<rparr>]
   \<and> products (db shop_world) (productId ([\<lparr>productId = 1, quantity = 1\<rparr>, \<lparr>productId = 99, quantity = 1\<rparr>] ! 1)) = None
   \<and> products (db shop_world) (productId ([\<lparr>productId = 1, quantity = 1\<rparr>, \<lparr>productId = 99, quantity = 1\<rparr>] ! 0)) = Some laptop
   \<and> cr_available (fst (checkInventory shop_world
        [\<lparr>productId = 1, quantity = 1\<rparr>, \<lparr>productId = 99, quantity = 1\<rparr>])) = False
   \<and> ce_requested (cr_items (fst (checkInventory shop_world
        [\<lparr>productId = 1, quantity = 1\<rparr>, \<lparr>productId = 99, quantity = 1\<rparr>])) ! 1) = None
   \<and> ce_sufficient (cr_items (fst (checkInventory shop_world
        [\<lparr>productId = 1, quantity = 1\<rparr>, \<lparr>productId = 99, quantity = 1\<rparr>])) ! 1) = None
   \<and> ce_requested (cr_items (fst (checkInventory shop_world
        [\<lparr>productId = 1, quantity = 1\<rparr>, \<lparr>productId = 99, quantity = 1\<rparr>])) ! 0) = Some 1
   \<and> ce_sufficient (cr_items (fst (checkInventory shop_world
        [\<lparr>productId = 1, quantity = 1\<rparr>, \<lparr>productId = 99, quantity = 1\<rparr>])) ! 0) = Some True"
proof -
  let ?its = "[\<lparr>productId = 1, quantity = 1\<rparr>, \<lparr>productId = 99, quantity = 1\<rparr>]"
  have a: "(1::nat) < length ?its" by simp
  have b: "products (db shop_world) (productId (?its ! 1)) = None"
    by (simp add: shop_world_def shop_def)
  have c: "0 < length ?its \<and> products (db shop_world) (productId (?its ! 0)) = Some laptop"
    by (simp add: shop_world_def shop_def)
  have s: "stock_quantity laptop = 50" by (simp add: laptop_def)
  from checkInventory_missing_product [OF a b] have
    miss: "cr_available (fst (checkInventory shop_world ?its)) = False"
      "cr_items (fst (checkInventory shop_world ?its)) ! 1
         = \<lparr>ce_productId = productId (?its ! 1), ce_sku = None, ce_name = None,
            ce_requested = None, ce_available = AvailFlag False,
            ce_reason = Some ''product_not_found'', ce_sufficient = None\<rparr>"
    and found: "\<forall>j p. j < length ?its \<and> products (db shop_world) (productId (?its ! j)) = Some p \<longrightarrow>
        ce_requested (cr_items (fst (checkInventory shop_world ?its)) ! j) = Some (quantity (?its ! j))
      \<and> ce_sufficient (cr_items (fst (checkInventory shop_world ?its)) ! j)
          = Some (quantity (?its ! j) \<le> stock_quantity p)"
    by blast+
  from found c have
    "ce_requested (cr_items (fst (checkInventory shop_world ?its)) ! 0) = Some (quantity (?its ! 0))
      \<and> ce_sufficient (cr_items (fst (checkInventory shop_world ?its)) ! 0)
          = Some (quantity (?its ! 0) \<le> stock_quantity laptop)"
    by blast
  with a b c s miss show ?thesis by simp
qed

section \<open>Order workflow: properties\<close>


lemma reserve_loop_error_code:
  "reserve_loop d c now its = (Inl e, d', c') \<Longrightarrow> code e = None \<or> code e = Some ''22003''"
  by (induction its arbitrary: d c)
     (auto simp: Error_def split: option.splits prod.splits sum.splits
           dest: decrement_stock_error_code)

lemma reserveInventory_error:
  "fst (reserveInventory w now oid its) = Inl e \<Longrightarrow>
     (code e = None \<or> code e = Some ''22003'') \<and> db (snd (reserveInventory w now oid its)) = db w
     \<and> payment_calls (snd (reserveInventory w now oid its)) = payment_calls w"
  by (cases "reserve_loop (db w) (cache w) now its")
     (auto simp: reserveInventory_def split: sum.splits dest: reserve_loop_error_code)

lemma reserve_loop_orders:
  "reserve_loop d c now its = (r, d', c') \<Longrightarrow> orders d' = orders d \<and> users d' = users d"
proof (induction its arbitrary: d c)
  case Nil
  then show ?case by simp
next
  case (Cons it its)
  obtain r1 d1 where dec: "decrement_stock d now (quantity it) (productId it) = (r1, d1)"
    by (cases "decrement_stock d now (quantity it) (productId it)")
  have keep: "orders d1 = orders d \<and> users d1 = users d"
    using decrement_stock_cases [OF dec] by auto
  show ?case
  proof (cases "\<exists>row. r1 = Inr (Some row)")
    case False
    with Cons.prems dec keep show ?thesis by (auto split: sum.splits option.splits)
  next
    case True
    with Cons.prems dec have
      "reserve_loop d1 (deletePattern (cache_del c (''product:'' @ show_int (productId it))) ''products:*'')
         now its = (r, d', c')" by auto
    from Cons.IH [OF this] keep show ?thesis by simp
  qed
qed

lemma reserveInventory_success:
  assumes "fst (reserveInventory w now oid its) = Inr r"
  shows "stock_of (db (snd (reserveInventory w now oid its))) pid
       = map_option (\<lambda>s. s - requested its pid) (stock_of (db w) pid)"
    and "orders (db (snd (reserveInventory w now oid its))) = orders (db w)"
    and "users (db (snd (reserveInventory w now oid its))) = users (db w)"
    and "payment_calls (snd (reserveInventory w now oid its)) = payment_calls w"
proof -
  obtain x d' c' where loop: "reserve_loop (db w) (cache w) now its = (x, d', c')"
    by (cases "reserve_loop (db w) (cache w) now its")
  with assms obtain u where x: "x = Inr u"
    by (cases x) (auto simp: reserveInventory_def)
  have snd: "snd (reserveInventory w now oid its) = w\<lparr>db := d', cache := c'\<rparr>"
    using loop x by (simp add: reserveInventory_def)
  show "stock_of (db (snd (reserveInventory w now oid its))) pid
       = map_option (\<lambda>s. s - requested its pid) (stock_of (db w) pid)"
    using reserve_loop_stock [of "db w" "cache w" now its u d' c' pid] loop x snd by simp
  show "orders (db (snd (reserveInventory w now oid its))) = orders (db w)"
    using reserve_loop_orders [OF loop] snd by simp
  show "users (db (snd (reserveInventory w now oid its))) = users (db w)"
    using reserve_loop_orders [OF loop] snd by simp
  show "payment_calls (snd (reserveInventory w now oid its)) = payment_calls w"
    using snd by simp
qed

lemma release_loop_orders:
  "orders (fst (release_loop d c now its)) = orders d
   \<and> users (fst (release_loop d c now its)) = users d"
proof (induction its arbitrary: d c)
  case Nil
  then show ?case by simp
next
  case (Cons it its)
  have "orders (increment_stock d now (quantity it) (productId it)) = orders d
      \<and> users (increment_stock d now (quantity it) (productId it)) = users d"
    by (simp add: increment_stock_def split: option.splits)
  with Cons.IH show ?case by simp
qed

lemma releaseInventory_effect:
  "fst (releaseInventory w now oid its)
     = Inr \<lparr>rl_success = True, rl_orderId = oid, itemsReleased = length its\<rparr>"
  "stock_of (db (snd (releaseInventory w now oid its))) pid
     = map_option (\<lambda>s. s + requested its pid) (stock_of (db w) pid)"
  "orders (db (snd (releaseInventory w now oid its))) = orders (db w)"
  "payment_calls (snd (releaseInventory w now oid its)) = payment_calls w"
  using release_loop_stock [of "db w" "cache w" now its pid]
    release_loop_orders [of "db w" "cache w" now its]
  by (auto simp: releaseInventory_def split: prod.splits)

lemma insert_order_items_keeps:
  "orders (insert_order_items d t oid pds) = orders d
   \<and> users (insert_order_items d t oid pds) = users d
   \<and> products (insert_order_items d t oid pds) = products d"
  by (induction pds arbitrary: d) auto

lemma place_order_success:
  assumes "fst (place_order env w req) = Inr (oid, totalAmount, pds)"
  shows "\<exists>amount. orders (db (snd (place_order env w req))) oid
           = Some \<lparr>o_user_id = userId req, o_status = ''pending'', o_total_amount = amount,
                o_payment_method = paymentMethod req, o_payment_status = ''pending'',
                o_created_at = clock env, o_updated_at = clock env\<rparr>"
    and "products (db (snd (place_order env w req))) = products (db w)"
    and "payment_calls (snd (place_order env w req)) = payment_calls w"
    and "cache (snd (place_order env w req)) = cache w"
    and "price_items (db w) (req_items req) (Fin 0) [] = Inr (totalAmount, pds)"
  using assms
  by (auto simp: place_order_def checkInventory_def insert_order_def Let_def
        insert_order_items_keeps
      split: option.splits sum.splits prod.splits if_splits)




lemma processPayment_effect:
  "db (snd (processPayment w rnd oid amount method)) = db w"
  "cache (snd (processPayment w rnd oid amount method)) = cache w"
  "fst (processPayment w rnd oid amount method) = Inl e \<Longrightarrow> code e = Some ''PAYMENT_FAILED''"
  "fail_draw rnd < 1 / 10 \<Longrightarrow> \<exists>e. fst (processPayment w rnd oid amount method) = Inl e"
  by (auto simp: processPayment_def Let_def Error_def split: if_splits)





text \<open>
  C7. When the order row has been written and the reservation then throws, the request
  fails with that error, the order row has status \<open>failed\<close> (its payment status is still
  \<open>pending\<close>), and the payment step was not called.
\<close>

theorem reservation_failure_marks_failed:
  assumes "fst (place_order env w req) = Inr (oid, totalAmount, pds)"
    and "fst (reserveInventory (snd (place_order env w req)) (clock env) oid (req_items req))
           = Inl error"
  shows "fst (create_order env w req) = Inl error
       \<and> (\<exists>ord. orders (db (snd (create_order env w req))) oid = Some ord
              \<and> o_status ord = ''failed'' \<and> o_payment_status ord = ''pending'')
       \<and> payment_calls (snd (create_order env w req)) = payment_calls w"
proof -
  let ?w1 = "snd (place_order env w req)"
  let ?w2 = "snd (reserveInventory ?w1 (clock env) oid (req_items req))"
  have co: "create_order env w req
      = (Inl error, ?w2\<lparr>db := set_order_status (db ?w2) (clock env) oid ''failed''\<rparr>)"
    using assms
    by (cases "place_order env w req";
        cases "reserveInventory ?w1 (clock env) oid (req_items req)")
       (simp add: create_order_def fulfil_order_def)
  from reserveInventory_error [OF assms(2)] have
    keep: "db ?w2 = db ?w1" "payment_calls ?w2 = payment_calls ?w1" by simp_all
  from place_order_success(1) [OF assms(1)] obtain amount where
    row: "orders (db ?w1) oid
           = Some \<lparr>o_user_id = userId req, o_status = ''pending'', o_total_amount = amount,
                o_payment_method = paymentMethod req, o_payment_status = ''pending'',
                o_created_at = clock env, o_updated_at = clock env\<rparr>" by blast
  show ?thesis
    using co keep row place_order_success(3) [OF assms(1)]
    by (simp add: set_order_status_def)
qed

theorem reservation_failure_marks_failed_witness:
  "fst (place_order (sample_env 7799940) shop_world twice_laptop)
     = Inr (1, js_add (js_add (Fin 0) (js_mult (parseFloat 129999) (to_number 30)))
                 (js_mult (parseFloat 129999) (to_number 30)),
            [\<lparr>pd_productId = 1, pd_quantity = 30, pd_price = 129999,
              pd_name = ''Premium Laptop'', pd_sku = ''LAPTOP-001'',
              itemTotal = js_mult (parseFloat 129999) (to_number 30)\<rparr>,
             \<lparr>pd_productId = 1, pd_quantity = 30, pd_price = 129999,
              pd_name = ''Premium Laptop'', pd_sku = ''LAPTOP-001'',
              itemTotal = js_mult (parseFloat 129999) (to_number 30)\<rparr>])
   \<and> fst (reserveInventory (snd (place_order (sample_env 7799940) shop_world twice_laptop))
            (clock (sample_env 7799940)) 1 (req_items twice_laptop))
       = Inl (Error ''Failed to reserve inventory for product 1: insufficient stock'')
   \<and> fst (create_order (sample_env 7799940) shop_world twice_laptop)
       = Inl (Error ''Failed to reserve inventory for product 1: insufficient stock'')
   \<and> (\<exists>ord. orders (db (snd (create_order (sample_env 7799940) shop_world twice_laptop))) 1 = Some ord
          \<and> o_status ord = ''failed'' \<and> o_payment_status ord = ''pending'')
   \<and> payment_calls (snd (create_order (sample_env 7799940) shop_world twice_laptop)) = []"
proof -
  have a: "fst (place_order (sample_env 7799940) shop_world twice_laptop)
     = Inr (1, js_add (js_add (Fin 0) (js_mult (parseFloat 129999) (to_number 30)))
                 (js_mult (parseFloat 129999) (to_number 30)),
            [\<lparr>pd_productId = 1, pd_quantity = 30, pd_price = 129999,
              pd_name = ''Premium Laptop'', pd_sku = ''LAPTOP-001'',
              itemTotal = js_mult (parseFloat 129999) (to_number 30)\<rparr>,
             \<lparr>pd_productId = 1, pd_quantity = 30, pd_price = 129999,
              pd_name = ''Premium Laptop'', pd_sku = ''LAPTOP-001'',
              itemTotal = js_mult (parseFloat 129999) (to_number 30)\<rparr>])"
    by (simp add: place_order_def checkInventory_def check_item_def sufficient_def
          insert_order_def twice_laptop_def shop_world_def shop_def laptop_def sample_env_def
          Let_def)
  have p: "products (db (snd (place_order (sample_env 7799940) shop_world twice_laptop)))
      = [1 \<mapsto> laptop, 2 \<mapsto> phone]"
    using place_order_success(2) [OF a] by (simp add: shop_world_def shop_def)
  have b: "fst (reserveInventory (snd (place_order (sample_env 7799940) shop_world twice_laptop))
            (clock (sample_env 7799940)) 1 (req_items twice_laptop))
       = Inl (Error ''Failed to reserve inventory for product 1: insufficient stock'')"
    using p
    by (simp add: reserveInventory_def decrement_stock_def int4_def twice_laptop_def laptop_def
          show_int_def digit_def Let_def split: prod.splits)
  have c: "payment_calls shop_world = []" by (simp add: shop_world_def)
  show ?thesis
    using a b c reservation_failure_marks_failed [OF a b] by simp
qed


text \<open>
  C5. When the reservation succeeded and the payment step fails, the request fails with the
  error of the payment step (code \<open>PAYMENT_FAILED\<close>), the stock of every product is what it
  was before the reservation (and before the request), and the order row has status
  \<open>cancelled\<close> and payment status \<open>failed\<close>.
\<close>

theorem payment_failure_compensates:
  assumes "fst (place_order env w req) = Inr (oid, totalAmount, pds)"
    and "fst (reserveInventory (snd (place_order env w req)) (clock env) oid (req_items req))
           = Inr r"
    and "fail_draw (draw env) < 1 / 10"
  shows "(\<exists>e. fst (create_order env w req) = Inl e \<and> code e = Some ''PAYMENT_FAILED''
            \<and> fst (processPayment
                     (snd (reserveInventory (snd (place_order env w req)) (clock env) oid
                             (req_items req)))
                     (draw env) oid totalAmount (paymentMethod req)) = Inl e)
       \<and> (\<forall>pid. stock_of (db (snd (create_order env w req))) pid
                 = stock_of (db (snd (place_order env w req))) pid)
       \<and> (\<forall>pid. stock_of (db (snd (place_order env w req))) pid = stock_of (db w) pid)
       \<and> (\<exists>ord. orders (db (snd (create_order env w req))) oid = Some ord
              \<and> o_status ord = ''cancelled'' \<and> o_payment_status ord = ''failed'')"
proof -
  let ?w1 = "snd (place_order env w req)"
  let ?w2 = "snd (reserveInventory ?w1 (clock env) oid (req_items req))"
  let ?pay = "processPayment ?w2 (draw env) oid totalAmount (paymentMethod req)"
  let ?w3 = "snd ?pay"
  let ?w4 = "snd (releaseInventory ?w3 (clock env) oid (req_items req))"
  obtain e where e: "fst ?pay = Inl e"
    using processPayment_effect(4) [OF assms(3)] by blast
  have code: "code e = Some ''PAYMENT_FAILED''"
    using processPayment_effect(3) [OF e] .
  have co: "create_order env w req
      = (Inl e, ?w4\<lparr>db := set_order_payment (db ?w4) (clock env) oid ''failed'' ''cancelled''\<rparr>)"
    using assms(1,2) e releaseInventory_effect(1) [of ?w3 "clock env" oid "req_items req"]
    by (cases "place_order env w req";
        cases "reserveInventory ?w1 (clock env) oid (req_items req)";
        cases ?pay; cases "releaseInventory ?w3 (clock env) oid (req_items req)")
       (simp add: create_order_def fulfil_order_def)
  have db3: "db ?w3 = db ?w2" by (rule processPayment_effect(1))
  have stock: "stock_of (db ?w4) pid = stock_of (db ?w1) pid" for pid
  proof -
    have "stock_of (db ?w4) pid
        = map_option (\<lambda>s. s + requested (req_items req) pid) (stock_of (db ?w2) pid)"
      using releaseInventory_effect(2) [of ?w3 "clock env" oid "req_items req" pid] db3
      by simp
    also have "\<dots> = map_option (\<lambda>s. s + requested (req_items req) pid)
        (map_option (\<lambda>s. s - requested (req_items req) pid) (stock_of (db ?w1) pid))"
      using reserveInventory_success(1) [OF assms(2)] by simp
    also have "\<dots> = stock_of (db ?w1) pid"
      by (cases "stock_of (db ?w1) pid") simp_all
    finally show ?thesis .
  qed
  have stock': "stock_of (set_order_payment d t oid a b) pid = stock_of d pid" for d t a b pid
    by (simp add: stock_of_def set_order_payment_def split: option.splits)
  have ord4: "orders (db ?w4) = orders (db ?w1)"
    using releaseInventory_effect(3) [of ?w3 "clock env" oid "req_items req"] db3
      reserveInventory_success(2) [OF assms(2)] by simp
  from place_order_success(1) [OF assms(1)] obtain amount where
    row: "orders (db ?w1) oid
           = Some \<lparr>o_user_id = userId req, o_status = ''pending'', o_total_amount = amount,
                o_payment_method = paymentMethod req, o_payment_status = ''pending'',
                o_created_at = clock env, o_updated_at = clock env\<rparr>" by blast
  have 1: "\<exists>e. fst (create_order env w req) = Inl e \<and> code e = Some ''PAYMENT_FAILED''
            \<and> fst ?pay = Inl e"
    using co code e by simp
  have 2: "\<forall>pid. stock_of (db (snd (create_order env w req))) pid = stock_of (db ?w1) pid"
    using co stock stock' by simp
  have 3: "\<forall>pid. stock_of (db ?w1) pid = stock_of (db w) pid"
    using place_order_success(2) [OF assms(1)] by (simp add: stock_of_def)
  have 4: "\<exists>ord. orders (db (snd (create_order env w req))) oid = Some ord
              \<and> o_status ord = ''cancelled'' \<and> o_payment_status ord = ''failed''"
    using co ord4 row by (simp add: set_order_payment_def)
  from 1 2 3 4 show ?thesis by blast
qed

theorem payment_failure_compensates_witness:
  "fst (place_order (sample_env 89999) shop_world one_phone)
     = Inr (1, js_add (Fin 0) (js_mult (parseFloat 89999) (to_number 1)),
            [\<lparr>pd_productId = 2, pd_quantity = 1, pd_price = 89999,
              pd_name = ''Smartphone Pro'', pd_sku = ''PHONE-001'',
              itemTotal = js_mult (parseFloat 89999) (to_number 1)\<rparr>])
   \<and> fst (reserveInventory (snd (place_order (sample_env 89999) shop_world one_phone))
            (clock (sample_env 89999)) 1 (req_items one_phone))
       = Inr \<lparr>rr_success = True, rr_orderId = 1, itemsReserved = 1\<rparr>
   \<and> fail_draw (draw (sample_env 89999)) < 1 / 10
   \<and> stock_of (db (snd (create_order (sample_env 89999) shop_world one_phone))) 2 = Some 100
   \<and> (\<exists>ord. orders (db (snd (create_order (sample_env 89999) shop_world one_phone))) 1 = Some ord
          \<and> o_status ord = ''cancelled'' \<and> o_payment_status ord = ''failed'')"
proof -
  have a: "fst (place_order (sample_env 89999) shop_world one_phone)
     = Inr (1, js_add (Fin 0) (js_mult (parseFloat 89999) (to_number 1)),
            [\<lparr>pd_productId = 2, pd_quantity = 1, pd_price = 89999,
              pd_name = ''Smartphone Pro'', pd_sku = ''PHONE-001'',
              itemTotal = js_mult (parseFloat 89999) (to_number 1)\<rparr>])"
    by (simp add: place_order_def checkInventory_def check_item_def sufficient_def
          insert_order_def one_phone_def shop_world_def shop_def phone_def sample_env_def
          Let_def)
  have p: "products (db (snd (place_order (sample_env 89999) shop_world one_phone)))
      = [1 \<mapsto> laptop, 2 \<mapsto> phone]"
    using place_order_success(2) [OF a] by (simp add: shop_world_def shop_def)
  have b: "fst (reserveInventory (snd (place_order (sample_env 89999) shop_world one_phone))
            (clock (sample_env 89999)) 1 (req_items one_phone))
       = Inr \<lparr>rr_success = True, rr_orderId = 1, itemsReserved = 1\<rparr>"
    using p
    by (simp add: reserveInventory_def decrement_stock_def int4_def one_phone_def phone_def
          Let_def split: prod.splits)
  have c: "fail_draw (draw (sample_env 89999)) < 1 / 10" by (simp add: sample_env_def)
  have s: "stock_of (db shop_world) 2 = Some 100"
    by (simp add: stock_of_def shop_world_def shop_def phone_def)
  show ?thesis
    using a b c s payment_failure_compensates [OF a b c] by simp
qed

section \<open>Error handler: properties\<close>

text \<open>
  C9, as stated, fails in its last case: an error without one of the four codes whose
  \<open>statusCode\<close> is set is answered with that status, not with 500.
\<close>

theorem errorHandler_status_counterexample:
  "code ((Error ''Unexpected token'')\<lparr>statusCode := Some 400\<rparr>) = None
   \<and> er_code (errorHandler None ((Error ''Unexpected token'')\<lparr>statusCode := Some 400\<rparr>))
       = ''INTERNAL_ERROR''
   \<and> er_status (errorHandler None ((Error ''Unexpected token'')\<lparr>statusCode := Some 400\<rparr>)) = 400
   \<and> er_status (errorHandler None ((Error ''Unexpected token'')\<lparr>statusCode := Some 400\<rparr>)) \<noteq> 500"
  by (simp add: errorHandler_def Error_def)

text \<open>
  C9, amended. The body carries the message of the error and a non-empty code, the code of
  the error or \<open>INTERNAL_ERROR\<close> when it has none; the status is 422, 409, 404 or 400 for the
  four codes and otherwise the \<open>statusCode\<close> of the error, or 500 when it has none; a stack
  is sent only when \<open>NODE_ENV\<close> is \<open>development\<close>.
\<close>

theorem errorHandler_response:
  "er_message (errorHandler node_env err) = message err
   \<and> er_code (errorHandler node_env err) \<noteq> []
   \<and> (code err = None \<or> code err = Some [] \<longrightarrow>
        er_code (errorHandler node_env err) = ''INTERNAL_ERROR'')
   \<and> (\<forall>c. code err = Some c \<and> c \<noteq> [] \<longrightarrow> er_code (errorHandler node_env err) = c)
   \<and> er_status (errorHandler node_env err)
       = (if code err = Some ''PAYMENT_FAILED'' then 422
          else if code err = Some ''INSUFFICIENT_INVENTORY'' then 409
          else if code err = Some ''NOT_FOUND'' then 404
          else if code err = Some ''VALIDATION_ERROR'' then 400
          else if statusCode err = None \<or> statusCode err = Some 0 then 500
          else the (statusCode err))
   \<and> (er_stack (errorHandler node_env err) \<noteq> None \<longrightarrow>
        node_env = Some ''development'' \<and> node_env \<noteq> Some ''production'')"
  by (auto simp: errorHandler_def Let_def split: option.splits)

theorem errorHandler_response_witness:
  "code ((Error ''Unexpected token'')\<lparr>statusCode := Some 400, stack := Some ''at parse''\<rparr>) = None
   \<and> er_code (errorHandler (Some ''development'')
        ((Error ''Unexpected token'')\<lparr>statusCode := Some 400, stack := Some ''at parse''\<rparr>))
       = ''INTERNAL_ERROR''
   \<and> er_stack (errorHandler (Some ''development'')
        ((Error ''Unexpected token'')\<lparr>statusCode := Some 400, stack := Some ''at parse''\<rparr>))
       \<noteq> None
   \<and> er_stack (errorHandler (Some ''production'')
        ((Error ''Unexpected token'')\<lparr>statusCode := Some 400, stack := Some ''at parse''\<rparr>))
       = None
   \<and> code ((Error ''Payment failed: card_declined'')
        \<lparr>code := Some ''PAYMENT_FAILED'', reason := Some ''card_declined''\<rparr>)
       = Some ''PAYMENT_FAILED''
   \<and> er_code (errorHandler None ((Error ''Payment failed: card_declined'')
        \<lparr>code := Some ''PAYMENT_FAILED'', reason := Some ''card_declined''\<rparr>))
       = ''PAYMENT_FAILED''
   \<and> er_status (errorHandler None ((Error ''Payment failed: card_declined'')
        \<lparr>code := Some ''PAYMENT_FAILED'', reason := Some ''card_declined''\<rparr>))
       = 422"
proof -
  have a: "code ((Error ''Unexpected token'')\<lparr>statusCode := Some 400, stack := Some ''at parse''\<rparr>) = None"
    by (simp add: Error_def)
  have b: "er_stack (errorHandler (Some ''development'')
        ((Error ''Unexpected token'')\<lparr>statusCode := Some 400, stack := Some ''at parse''\<rparr>))
       \<noteq> None"
    by (simp add: errorHandler_def Error_def)
  have c: "code ((Error ''Payment failed: card_declined'')
        \<lparr>code := Some ''PAYMENT_FAILED'', reason := Some ''card_declined''\<rparr>)
       = Some ''PAYMENT_FAILED''"
    by simp
  show ?thesis
    using a b c
      errorHandler_response [of "Some ''development''"
        "(Error ''Unexpected token'')\<lparr>statusCode := Some 400, stack := Some ''at parse''\<rparr>"]
      errorHandler_response [of "Some ''production''"
        "(Error ''Unexpected token'')\<lparr>statusCode := Some 400, stack := Some ''at parse''\<rparr>"]
      errorHandler_response [of None
        "(Error ''Payment failed: card_declined'')
           \<lparr>code := Some ''PAYMENT_FAILED'', reason := Some ''card_declined''\<rparr>"]
    by auto
qed

section \<open>Reading an order: properties\<close>

lemma stringify_parse_elements:
  "\<forall>j \<in> set js. stringify (parse j) = Some j \<Longrightarrow>
     map (\<lambda>v. case stringify v of None \<Rightarrow> JsonNull | Some j \<Rightarrow> j) (map parse js) = js"
  by (induction js) auto

lemma stringify_parse_properties:
  "\<forall>(k, j) \<in> set kjs. stringify (parse j) = Some j \<Longrightarrow>
     concat (map (\<lambda>(k, v). case stringify v of None \<Rightarrow> [] | Some j \<Rightarrow> [(k, j)])
       (map (\<lambda>(k, j). (k, parse j)) kjs)) = kjs"
  by (induction kjs) auto

lemma stringify_parse: "stringify (parse j) = Some j"
proof (induction j)
  case (JsonArr js)
  have "\<forall>j \<in> set js. stringify (parse j) = Some j"
    using JsonArr.IH by blast
  then show ?case by (simp del: map_map add: stringify_parse_elements)
next
  case (JsonObj kjs)
  have "\<forall>(k, j) \<in> set kjs. stringify (parse j) = Some j"
    using JsonObj.IH by fastforce
  then show ?case by (simp del: map_map add: stringify_parse_properties)
qed simp_all

lemma get_order_from_store:
  "fst (get_order shop_with_order (Some 1)) = Inr \<lparr>g_order = order_from_store, g_cached = False\<rparr>"
  by (simp add: get_order_def cache_get_def cache_set_def select_order_def order_row_js_def
      select_order_items_def shop_with_order_def shop_world_def shop_def sample_order_def
      laptop_def order_from_store_def to_number_small show_int_def show_decimal_def digit_def
      Let_def)


lemma get_order_miss:
  assumes "fst (get_order w (Some oid)) = Inr r1" and "\<not> g_cached r1"
  shows "\<exists>j. stringify (g_order r1) = Some j \<and> truthy (parse j)
           \<and> snd (get_order w (Some oid))
               = w\<lparr>cache := (cache w)(''order:'' @ show_int oid \<mapsto> j)\<rparr>"
proof -
  have miss: "\<not> truthy (cache_get (cache w) (''order:'' @ show_int oid))"
    using assms by (auto simp: get_order_def Let_def split: if_splits)
  then obtain r where r: "select_order (db w) oid = Some r"
    using assms(1) by (cases "select_order (db w) oid") (auto simp: get_order_def Let_def)
  define ord where "ord = JObj (order_row_js r @ [(''items'', JArr (select_order_items (db w) oid))])"
  obtain j where j: "stringify ord = Some j" "truthy (parse j)"
    by (simp add: ord_def)
  have "get_order w (Some oid)
      = (Inr \<lparr>g_order = ord, g_cached = False\<rparr>,
         w\<lparr>cache := (cache w)(''order:'' @ show_int oid \<mapsto> j)\<rparr>)"
    using miss r j(1) by (simp add: get_order_def cache_set_def Let_def ord_def)
  with assms(1) j show ?thesis by auto
qed

text \<open>
  C8, as stated, fails in its second half: the value that comes back from the cache is not
  the value that was read from the store. The store's rows hold \<open>Date\<close> values
  (\<open>created_at\<close>, \<open>updated_at\<close>), which come back as strings.
\<close>

theorem cached_order_value_counterexample:
  "fst (get_order shop_with_order (Some 1))
     = Inr \<lparr>g_order = order_from_store, g_cached = False\<rparr>
   \<and> fst (get_order (snd (get_order shop_with_order (Some 1))) (Some 1))
     = Inr \<lparr>g_order = order_from_cache, g_cached = True\<rparr>
   \<and> order_from_cache \<noteq> order_from_store"
proof -
  have a: "fst (get_order shop_with_order (Some 1))
      = Inr \<lparr>g_order = order_from_store, g_cached = False\<rparr>"
    by (rule get_order_from_store)
  from get_order_miss [OF a] obtain j where
    j: "stringify order_from_store = Some j"
    and w': "snd (get_order shop_with_order (Some 1))
               = shop_with_order\<lparr>cache := (cache shop_with_order)(''order:'' @ show_int 1 \<mapsto> j)\<rparr>"
    by auto
  have p: "parse j = order_from_cache"
    using j by (auto simp: order_from_store_def order_from_cache_def)
  have "fst (get_order (snd (get_order shop_with_order (Some 1))) (Some 1))
     = Inr \<lparr>g_order = order_from_cache, g_cached = True\<rparr>"
    unfolding w' using p
    by (simp add: get_order_def cache_get_def Let_def order_from_cache_def)
  moreover have "order_from_cache \<noteq> order_from_store"
    by (simp add: order_from_store_def order_from_cache_def)
  ultimately show ?thesis using a by simp
qed

text \<open>
  C8, amended. When \<open>GET /:id\<close> has answered from the store, the next \<open>GET /:id\<close> of that
  order answers from the cache (\<open>cached: true\<close>, state unchanged) and the JSON it sends for
  the order is the JSON the first answer sent; the cached value is the JSON round trip of
  the value read from the store.
\<close>

theorem cached_order_same_json:
  assumes "fst (get_order w (Some oid)) = Inr r1" and "\<not> g_cached r1"
  shows "\<exists>r2. get_order (snd (get_order w (Some oid))) (Some oid)
                = (Inr r2, snd (get_order w (Some oid)))
            \<and> g_cached r2
            \<and> stringify (g_order r2) = stringify (g_order r1)
            \<and> (\<exists>j. stringify (g_order r1) = Some j \<and> g_order r2 = parse j)"
proof -
  from get_order_miss [OF assms] obtain j where
    j: "stringify (g_order r1) = Some j" "truthy (parse j)"
    and w': "snd (get_order w (Some oid))
               = w\<lparr>cache := (cache w)(''order:'' @ show_int oid \<mapsto> j)\<rparr>" by blast
  have "get_order (snd (get_order w (Some oid))) (Some oid)
      = (Inr \<lparr>g_order = parse j, g_cached = True\<rparr>, snd (get_order w (Some oid)))"
    using j(2) unfolding w' by (simp add: get_order_def cache_get_def Let_def)
  then show ?thesis using j(1) by (simp add: stringify_parse)
qed

theorem cached_order_same_json_witness:
  "fst (get_order shop_with_order (Some 1)) = Inr \<lparr>g_order = order_from_store, g_cached = False\<rparr>
   \<and> \<not> g_cached \<lparr>g_order = order_from_store, g_cached = False\<rparr>
   \<and> (\<exists>r2. get_order (snd (get_order shop_with_order (Some 1))) (Some 1)
                = (Inr r2, snd (get_order shop_with_order (Some 1)))
            \<and> g_cached r2
            \<and> stringify (g_order r2) = stringify order_from_store)"
proof -
  have a: "fst (get_order shop_with_order (Some 1))
      = Inr \<lparr>g_order = order_from_store, g_cached = False\<rparr>"
    by (rule get_order_from_store)
  have b: "\<not> g_cached \<lparr>g_order = order_from_store, g_cached = False\<rparr>" by simp
  show ?thesis
    using a b cached_order_same_json [OF a b] by auto
qed

section \<open>Order total: properties\<close>

lemma line_total_nonneg:
  assumes "1 \<le> quantity it"
    and "\<forall>p. products d (productId it) = Some p \<longrightarrow> 0 \<le> p_price p"
  shows "0 \<le> line_total d it"
  using assms by (auto simp: line_total_def split: option.splits)

lemma exact_total_nonneg:
  assumes "\<forall>it \<in> set its. 1 \<le> quantity it \<and> quantity it < 2 ^ 53"
    and "\<forall>it \<in> set its. \<forall>p. products d (productId it) = Some p \<longrightarrow> 0 \<le> p_price p"
  shows "0 \<le> exact_total d its"
  unfolding exact_total_def
  using assms by (intro sum_list_nonneg) (auto intro!: line_total_nonneg)

lemma price_items_bounds:
  assumes "price_items d its (Fin s) acc = Inr (t, pds)"
    and "\<forall>it \<in> set its. 1 \<le> quantity it \<and> quantity it < 2 ^ 53"
    and "\<forall>it \<in> set its. \<forall>p. products d (productId it) = Some p \<longrightarrow> 0 \<le> p_price p"
    and "E0 * (1 - unit_roundoff) ^ k \<le> s" and "s \<le> E0 * (1 + unit_roundoff) ^ k"
    and "0 \<le> E0" and "2 \<le> k" and "s = 0 \<or> 2 powi (- 7) \<le> s"
    and "(E0 + exact_total d its) * (1 + unit_roundoff) ^ (k + length its) < 2 ^ 1024"
  shows "\<exists>t'. t = Fin t'
           \<and> (E0 + exact_total d its) * (1 - unit_roundoff) ^ (k + length its) \<le> t'
           \<and> t' \<le> (E0 + exact_total d its) * (1 + unit_roundoff) ^ (k + length its)"
  using assms
proof (induction its arbitrary: s acc E0 k)
  case Nil
  from Nil.prems(1) have "t = Fin s" by simp
  with Nil.prems(4,5) show ?case by (simp add: exact_total_def)
next
  case (Cons it its)
  define U where "U = 1 + unit_roundoff"
  define L where "L = 1 - unit_roundoff"
  have U: "1 \<le> U" "0 < U" "0 \<le> U" and L: "0 < L" "L \<le> 1" "0 \<le> L"
    using roundoff_facts by (simp_all add: U_def L_def)
  obtain p where p: "products d (productId it) = Some p"
    using Cons.prems(1) by (cases "products d (productId it)") auto
  define c where "c = p_price p"
  define q where "q = quantity it"
  define x :: rat where "x = of_int c / 100 * of_int q"
  define R where "R = exact_total d its"
  have c0: "0 \<le> c" using Cons.prems(3) p by (simp add: c_def)
  have q1: "1 \<le> q" "q < 2 ^ 53" using Cons.prems(2) by (simp_all add: q_def)
  have x0: "0 \<le> x" using c0 q1(1) by (simp add: x_def)
  have R0: "0 \<le> R"
    unfolding R_def using Cons.prems(2,3) by (intro exact_total_nonneg) auto
  have ex: "exact_total d (it # its) = x + R"
    using p by (simp add: exact_total_def line_total_def x_def R_def c_def q_def)
  have noov: "(E0 + x + R) * U ^ (k + 1 + length its) < 2 ^ 1024"
    using Cons.prems(9) by (simp add: ex U_def add.assoc)
  have E0: "0 \<le> E0" by (rule Cons.prems(6))
  have s0: "0 \<le> s"
  proof -
    have "0 \<le> E0 * L ^ k" using E0 L by simp
    with Cons.prems(4) show ?thesis by (simp add: L_def)
  qed
  have Upow: "U ^ 2 \<le> U ^ k" "U ^ (k + 1) \<le> U ^ (k + 1 + length its)"
    "U ^ 2 \<le> U ^ (k + 1 + length its)"
  proof -
    show "U ^ 2 \<le> U ^ k" using Cons.prems(7) U(1) by (rule power_increasing)
    show "U ^ (k + 1) \<le> U ^ (k + 1 + length its)" using _ U(1) by (rule power_increasing) simp
    have "2 \<le> k + 1 + length its" using Cons.prems(7) by simp
    then show "U ^ 2 \<le> U ^ (k + 1 + length its)" using U(1) by (rule power_increasing)
  qed
  have Lpow: "L ^ k \<le> L ^ 2"
    using Cons.prems(7) L(3) L(2) by (rule power_decreasing)
  have big: "(E0 + x) * U ^ (k + 1) \<le> (E0 + x + R) * U ^ (k + 1 + length its)"
    using Upow(2) E0 x0 R0 U by (intro mult_mono) auto
  have "x * U ^ 2 \<le> (E0 + x + R) * U ^ (k + 1 + length its)"
    using Upow(3) E0 x0 R0 U by (intro mult_mono) auto
  with noov have "x * U ^ 2 < 2 ^ 1024" by simp
  from item_total_bounds [OF c0 q1 this [unfolded x_def U_def]] obtain y where
    y: "js_mult (parseFloat c) (to_number q) = Fin y" "x * L ^ 2 \<le> y" "y \<le> x * U ^ 2"
      "y = 0 \<or> 2 powi (- 7) \<le> y"
    by (auto simp: x_def U_def L_def)
  have y0: "0 \<le> y"
  proof -
    have "0 \<le> x * L ^ 2" using x0 L by simp
    with y(2) show ?thesis by simp
  qed
  have z7: "s + y = 0 \<or> 2 powi (- 7) \<le> s + y"
  proof (cases "s = 0 \<and> y = 0")
    case True
    then show ?thesis by simp
  next
    case False
    then have "2 powi (- 7) \<le> s \<or> 2 powi (- 7) \<le> y"
      using Cons.prems(8) y(4) by auto
    then have "2 powi (- 7) \<le> s + y" using s0 y0 by linarith
    then show ?thesis by (rule disjI2)
  qed
  have up: "s + y \<le> (E0 + x) * U ^ k"
  proof -
    have "x * U ^ 2 \<le> x * U ^ k" using Upow(1) x0 by (rule mult_left_mono)
    with y(3) Cons.prems(5) show ?thesis by (simp add: U_def algebra_simps)
  qed
  have lo: "(E0 + x) * L ^ k \<le> s + y"
  proof -
    have "x * L ^ k \<le> x * L ^ 2" using Lpow x0 by (rule mult_left_mono)
    with y(2) Cons.prems(4) show ?thesis by (simp add: L_def algebra_simps)
  qed
  have "(s + y) * U \<le> (E0 + x) * U ^ k * U" using up U(3) by (rule mult_right_mono)
  then have zU: "(s + y) * U \<le> (E0 + x) * U ^ (k + 1)" by (simp add: algebra_simps)
  with big noov have "(s + y) * U < 2 ^ 1024" by simp
  from fl_bounds [OF z7 this [unfolded U_def]] obtain s1 where
    s1: "fl (s + y) = Fin s1" "(s + y) * L \<le> s1" "s1 \<le> (s + y) * U" "s1 = 0 \<or> 2 powi (- 7) \<le> s1"
    by (auto simp: U_def L_def)
  have lo1: "(E0 + x) * L ^ (k + 1) \<le> s1"
  proof -
    have "(E0 + x) * L ^ k * L \<le> (s + y) * L" using lo L(3) by (rule mult_right_mono)
    with s1(2) show ?thesis by (simp add: algebra_simps)
  qed
  have up1: "s1 \<le> (E0 + x) * U ^ (k + 1)" using s1(3) zU by simp
  have step: "price_items d its (Fin s1)
      (acc @ [\<lparr>pd_productId = productId it, pd_quantity = quantity it, pd_price = p_price p,
               pd_name = p_name p, pd_sku = p_sku p,
               itemTotal = js_mult (parseFloat (p_price p)) (to_number (quantity it))\<rparr>])
      = Inr (t, pds)"
    using Cons.prems(1) p y(1) s1(1) by (simp add: Let_def c_def q_def)
  have "\<exists>t'. t = Fin t'
      \<and> (E0 + x + exact_total d its) * (1 - unit_roundoff) ^ (k + 1 + length its) \<le> t'
      \<and> t' \<le> (E0 + x + exact_total d its) * (1 + unit_roundoff) ^ (k + 1 + length its)"
  proof (rule Cons.IH [OF step])
    show "\<forall>it \<in> set its. 1 \<le> quantity it \<and> quantity it < 2 ^ 53"
      using Cons.prems(2) by simp
    show "\<forall>it \<in> set its. \<forall>p. products d (productId it) = Some p \<longrightarrow> 0 \<le> p_price p"
      using Cons.prems(3) by simp
    show "(E0 + x) * (1 - unit_roundoff) ^ (k + 1) \<le> s1" using lo1 by (simp add: L_def)
    show "s1 \<le> (E0 + x) * (1 + unit_roundoff) ^ (k + 1)" using up1 by (simp add: U_def)
    show "0 \<le> E0 + x" using E0 x0 by simp
    show "2 \<le> k + 1" using Cons.prems(7) by simp
    show "s1 = 0 \<or> 2 powi (- 7) \<le> s1" by (rule s1(4))
    show "(E0 + x + exact_total d its) * (1 + unit_roundoff) ^ (k + 1 + length its) < 2 ^ 1024"
      using noov by (simp add: R_def U_def)
  qed
  then show ?case by (simp add: ex R_def add.assoc)
qed


lemma fl_laptop_price: "fl (129999 / 100) = Fin (5717416483970089 / 4398046511104)"
  by (rule fl_nearest [where e = 10 and k = 5717416483970089]) (simp_all add: power_int_minus)

lemma fl_three_laptops:
  "fl (5717416483970089 / 4398046511104 * 3) = Fin (4288062362977567 / 1099511627776)"
  by (rule fl_tie [where e = 11 and k = 8576124725955133]) (simp_all add: power_int_minus)

lemma fl_three_laptops_sum:
  "fl (4288062362977567 / 1099511627776) = Fin (4288062362977567 / 1099511627776)"
  by (rule fl_nearest [where e = 11 and k = 8576124725955134]) (simp_all add: power_int_minus)

lemma fl_exact_total: "fl (389997 / 100) = Fin (8576124725955133 / 2199023255552)"
  by (rule fl_nearest [where e = 11 and k = 8576124725955133]) (simp_all add: power_int_minus)

lemma three_laptops_total:
  "js_add (Fin 0) (js_mult (parseFloat 129999) (to_number 3))
     = Fin (4288062362977567 / 1099511627776)"
  "js_mult (parseFloat 129999) (to_number 3) = Fin (4288062362977567 / 1099511627776)"
proof -
  have n: "to_number 3 = Fin 3" using to_number_small [of 3] by simp
  show m: "js_mult (parseFloat 129999) (to_number 3) = Fin (4288062362977567 / 1099511627776)"
    using fl_laptop_price fl_three_laptops by (simp add: parseFloat_def n)
  show "js_add (Fin 0) (js_mult (parseFloat 129999) (to_number 3))
     = Fin (4288062362977567 / 1099511627776)"
    unfolding m using fl_three_laptops_sum by simp
qed

lemma place_order_amount:
  assumes "fst (place_order env w req) = Inr (oid, totalAmount, pds)"
  shows "\<exists>ord. orders (db (snd (place_order env w req))) oid = Some ord
           \<and> to_numeric env totalAmount = Some (o_total_amount ord)"
  using assms
  by (auto simp: place_order_def checkInventory_def insert_order_def Let_def
        insert_order_items_keeps
      split: option.splits sum.splits prod.splits if_splits)

lemma place_three_laptops_rounding:
  "fst (place_order rounding_env shop_world three_laptops)
     = Inr (1, Fin (4288062362977567 / 1099511627776),
            [\<lparr>pd_productId = 1, pd_quantity = 3, pd_price = 129999,
              pd_name = ''Premium Laptop'', pd_sku = ''LAPTOP-001'',
              itemTotal = Fin (4288062362977567 / 1099511627776)\<rparr>])"
  by (simp add: place_order_def checkInventory_def check_item_def sufficient_def
        insert_order_def three_laptops_def shop_world_def shop_def laptop_def rounding_env_def
        three_laptops_total fl_three_laptops_sum Let_def)

lemma exact_three_laptops:
  "exact_total (db shop_world) (req_items three_laptops) = 389997 / 100"
  by (simp add: exact_total_def line_total_def three_laptops_def shop_world_def shop_def
        laptop_def)

lemma exact_total_cents: "exact_total d its = of_int (cents_total d its) / 100"
  by (induction its)
     (auto simp: exact_total_def cents_total_def line_total_def add_divide_distrib
        split: option.splits)

lemma hundredths_eq:
  fixes c C :: int
  assumes "\<bar>rat_of_int c / 100 - rat_of_int C / 100\<bar> < 1 / 100"
  shows "c = C"
proof -
  define x where "x = rat_of_int (c - C)"
  have "rat_of_int c / 100 - rat_of_int C / 100 = x / 100"
    by (simp add: x_def diff_divide_distrib)
  with assms have "\<bar>x / 100\<bar> < 1 / 100" by simp
  then have "\<bar>x\<bar> < 1" by simp
  then have "rat_of_int \<bar>c - C\<bar> < rat_of_int 1" by (simp add: x_def)
  then have "\<bar>c - C\<bar> < 1" by (simp only: of_int_less_iff)
  then show ?thesis by simp
qed

lemma stored_total_exact:
  fixes E t L U :: rat
  assumes lo: "E * L \<le> t" and hi: "t \<le> E * U"
    and L: "0 \<le> L" "L \<le> 1" and U: "1 \<le> U" and E0: "0 \<le> E"
    and near: "\<bar>rat_of_int c / 100 - t\<bar> \<le> 1 / 200 + \<bar>t\<bar> / 2 ^ 52"
    and small: "E * (U - L) + E * U / 2 ^ 52 < 1 / 200"
    and E: "E = rat_of_int C / 100"
  shows "c = C"
proof -
  define a where "a = E * L"
  define b where "b = E * U"
  have a0: "0 \<le> a" using L(1) E0 by (simp add: a_def)
  have aE: "a \<le> E" using L(2) E0 by (simp add: a_def mult_left_le)
  have Eb: "E \<le> b" using U E0 by (simp add: b_def mult_le_cancel_left1)
  have at: "a \<le> t" and tb: "t \<le> b" using lo hi by (simp_all add: a_def b_def)
  have t0: "0 \<le> t" using a0 at by simp
  define s where "s = \<bar>t\<bar> / 2 ^ 52"
  define s' where "s' = b / 2 ^ 52"
  have ss': "s \<le> s'" using t0 tb by (simp add: s_def s'_def divide_right_mono)
  have sm: "(b - a) + s' < 1 / 200"
    using small by (simp add: a_def b_def s'_def algebra_simps)
  have nr: "\<bar>rat_of_int c / 100 - t\<bar> \<le> 1 / 200 + s" using near by (simp add: s_def)
  have "\<bar>rat_of_int c / 100 - E\<bar> < 1 / 100"
    using nr ss' sm at tb aE Eb by linarith
  then show ?thesis unfolding E by (rule hundredths_eq)
qed


text \<open>
  C1, as stated, fails: the total is computed in binary floating point. For three laptops
  at 1299.99 the handler computes 3899.9700000000003, which is neither the exact sum
  3899.97 nor the binary64 number nearest to it.
\<close>

theorem order_total_counterexample:
  "valid_request three_laptops
   \<and> fst (place_order rounding_env shop_world three_laptops)
       = Inr (1, Fin (4288062362977567 / 1099511627776),
              [\<lparr>pd_productId = 1, pd_quantity = 3, pd_price = 129999,
                pd_name = ''Premium Laptop'', pd_sku = ''LAPTOP-001'',
                itemTotal = Fin (4288062362977567 / 1099511627776)\<rparr>])
   \<and> exact_total (db shop_world) (req_items three_laptops) = 389997 / 100
   \<and> Fin (4288062362977567 / 1099511627776) \<noteq> Fin (389997 / 100)
   \<and> Fin (4288062362977567 / 1099511627776) \<noteq> fl (389997 / 100)"
proof -
  have "valid_request three_laptops"
    by (simp add: valid_request_def three_laptops_def)
  moreover have "Fin (4288062362977567 / 1099511627776) \<noteq> Fin (389997 / 100)" by simp
  moreover have "Fin (4288062362977567 / 1099511627776) \<noteq> fl (389997 / 100)"
    unfolding fl_exact_total by simp
  ultimately show ?thesis using place_three_laptops_rounding exact_three_laptops by blast
qed

text \<open>
  C1, amended. For a valid request on products with non-negative prices, with quantities
  below \<open>2 ^ 53\<close> and no overflow, the computed total is a finite binary64 number within the
  factors \<open>(1 - u) ^ (n + 2)\<close> and \<open>(1 + u) ^ (n + 2)\<close> of the exact sum, for \<open>n\<close> items and
  \<open>u = 2 powi -53\<close>. The order row holds what the database makes of that number; when that
  is a hundredth within \<open>1 / 200 + \<bar>t\<bar> / 2 ^ 52\<close> of the number \<open>t\<close> (rounding its decimal
  text to two places) and the rounding error of the sum is small against \<open>1 / 200\<close>, the
  stored total is the exact sum.
\<close>

theorem order_total_floating_point:
  assumes "valid_request req"
    and "fst (place_order env w req) = Inr (oid, totalAmount, pds)"
    and "\<forall>it \<in> set (req_items req). quantity it < 2 ^ 53"
    and "\<forall>it \<in> set (req_items req). \<forall>p. products (db w) (productId it) = Some p
           \<longrightarrow> 0 \<le> p_price p"
    and "exact_total (db w) (req_items req)
           * (1 + unit_roundoff) ^ (length (req_items req) + 2) < 2 ^ 1024"
  shows "\<exists>t ord. totalAmount = Fin t
           \<and> exact_total (db w) (req_items req)
                * (1 - unit_roundoff) ^ (length (req_items req) + 2) \<le> t
           \<and> t \<le> exact_total (db w) (req_items req)
                * (1 + unit_roundoff) ^ (length (req_items req) + 2)
           \<and> orders (db (snd (place_order env w req))) oid = Some ord
           \<and> to_numeric env totalAmount = Some (o_total_amount ord)
           \<and> (\<bar>of_int (o_total_amount ord) / 100 - t\<bar> \<le> 1 / 200 + \<bar>t\<bar> / 2 ^ 52
               \<and> exact_total (db w) (req_items req)
                    * ((1 + unit_roundoff) ^ (length (req_items req) + 2)
                       - (1 - unit_roundoff) ^ (length (req_items req) + 2))
                  + exact_total (db w) (req_items req)
                    * (1 + unit_roundoff) ^ (length (req_items req) + 2) / 2 ^ 52 < 1 / 200
               \<longrightarrow> of_int (o_total_amount ord) / 100 = exact_total (db w) (req_items req))"
proof -
  define E where "E = exact_total (db w) (req_items req)"
  define m where "m = length (req_items req) + 2"
  define U where "U = (1 + unit_roundoff) ^ m"
  define L where "L = (1 - unit_roundoff) ^ m"
  have pi: "price_items (db w) (req_items req) (Fin 0) [] = Inr (totalAmount, pds)"
    using place_order_success(5) [OF assms(2)] .
  have q: "\<forall>it \<in> set (req_items req). 1 \<le> quantity it \<and> quantity it < 2 ^ 53"
    using assms(1,3) by (auto simp: valid_request_def list_all_iff)
  have "\<exists>t'. totalAmount = Fin t'
      \<and> (0 + exact_total (db w) (req_items req))
           * (1 - unit_roundoff) ^ (2 + length (req_items req)) \<le> t'
      \<and> t' \<le> (0 + exact_total (db w) (req_items req))
           * (1 + unit_roundoff) ^ (2 + length (req_items req))"
    using pi q assms(4)
  proof (rule price_items_bounds)
    show "(0 + exact_total (db w) (req_items req))
        * (1 + unit_roundoff) ^ (2 + length (req_items req)) < 2 ^ 1024"
      using assms(5) by (simp add: add.commute)
  qed simp_all
  then obtain t where t: "totalAmount = Fin t" "E * L \<le> t" "t \<le> E * U"
    by (auto simp: add.commute E_def m_def U_def L_def)
  from place_order_amount [OF assms(2)] obtain ord where
    ord: "orders (db (snd (place_order env w req))) oid = Some ord"
      "to_numeric env totalAmount = Some (o_total_amount ord)" by blast
  have E0: "0 \<le> E" unfolding E_def using q assms(4) by (rule exact_total_nonneg)
  have L: "0 \<le> L" "L \<le> 1"
    using roundoff_facts by (simp_all add: L_def power_le_one)
  have U: "1 \<le> U" using roundoff_facts by (simp add: U_def)
  have "of_int (o_total_amount ord) / 100 = E"
    if near: "\<bar>of_int (o_total_amount ord) / 100 - t\<bar> \<le> 1 / 200 + \<bar>t\<bar> / 2 ^ 52"
      and small: "E * (U - L) + E * U / 2 ^ 52 < 1 / 200"
  proof -
    have "o_total_amount ord = cents_total (db w) (req_items req)"
      using t(2,3) L U E0 near small
      by (rule stored_total_exact) (simp add: E_def exact_total_cents)
    then show ?thesis by (simp add: E_def exact_total_cents)
  qed
  with t ord show ?thesis unfolding E_def m_def U_def L_def by blast
qed

theorem order_total_floating_point_witness:
  "valid_request three_laptops
   \<and> fst (place_order rounding_env shop_world three_laptops)
       = Inr (1, Fin (4288062362977567 / 1099511627776),
              [\<lparr>pd_productId = 1, pd_quantity = 3, pd_price = 129999,
                pd_name = ''Premium Laptop'', pd_sku = ''LAPTOP-001'',
                itemTotal = Fin (4288062362977567 / 1099511627776)\<rparr>])
   \<and> list_all (\<lambda>it. quantity it < 2 ^ 53) (req_items three_laptops)
   \<and> products (db shop_world) 1 = Some laptop \<and> 0 \<le> p_price laptop
   \<and> exact_total (db shop_world) (req_items three_laptops)
         * (1 + unit_roundoff) ^ (length (req_items three_laptops) + 2) < 2 ^ 1024
   \<and> 389997 / 100 * (1 - unit_roundoff) ^ 3 \<le> 4288062362977567 / 1099511627776
   \<and> 4288062362977567 / 1099511627776 \<le> 389997 / 100 * (1 + unit_roundoff) ^ 3
   \<and> (\<exists>ord. orders (db (snd (place_order rounding_env shop_world three_laptops))) 1 = Some ord
          \<and> o_total_amount ord = 389997)"
proof -
  have a: "valid_request three_laptops"
    by (simp add: valid_request_def three_laptops_def)
  note b = place_three_laptops_rounding
  have c: "\<forall>it \<in> set (req_items three_laptops). quantity it < 2 ^ 53"
    by (simp add: three_laptops_def)
  have d: "\<forall>it \<in> set (req_items three_laptops). \<forall>p.
         products (db shop_world) (productId it) = Some p \<longrightarrow> 0 \<le> p_price p"
    by (simp add: three_laptops_def shop_world_def shop_def laptop_def)
  have l: "length (req_items three_laptops) + 2 = 3" by (simp add: three_laptops_def)
  have e: "exact_total (db shop_world) (req_items three_laptops)
         * (1 + unit_roundoff) ^ (length (req_items three_laptops) + 2) < 2 ^ 1024"
    unfolding exact_three_laptops l by (simp add: unit_roundoff_def power3_eq_cube)
  from order_total_floating_point [OF a b c d e] obtain t ord where
    t: "Fin (4288062362977567 / 1099511627776) = Fin t"
      "389997 / 100 * (1 - unit_roundoff) ^ 3 \<le> t" "t \<le> 389997 / 100 * (1 + unit_roundoff) ^ 3"
    and ord: "orders (db (snd (place_order rounding_env shop_world three_laptops))) 1 = Some ord"
      "to_numeric rounding_env (Fin (4288062362977567 / 1099511627776)) = Some (o_total_amount ord)"
    and ex: "\<bar>of_int (o_total_amount ord) / 100 - t\<bar> \<le> 1 / 200 + \<bar>t\<bar> / 2 ^ 52
        \<and> 389997 / 100 * ((1 + unit_roundoff) ^ 3 - (1 - unit_roundoff) ^ 3)
            + 389997 / 100 * (1 + unit_roundoff) ^ 3 / 2 ^ 52 < 1 / 200
        \<longrightarrow> rat_of_int (o_total_amount ord) / 100 = 389997 / 100"
    unfolding exact_three_laptops l by blast
  have tv: "t = 4288062362977567 / 1099511627776" using t(1) by simp
  have amt: "o_total_amount ord = round (t * 100)"
    using ord(2) by (simp add: rounding_env_def tv)
  have near: "\<bar>of_int (o_total_amount ord) / 100 - t\<bar> \<le> 1 / 200 + \<bar>t\<bar> / 2 ^ 52"
  proof -
    have "\<bar>rat_of_int (round (t * 100)) - t * 100\<bar> \<le> 1 / 2" by (rule of_int_round_abs_le)
    then have "\<bar>rat_of_int (round (t * 100)) / 100 - t\<bar> \<le> 1 / 200" by (simp add: abs_le_iff field_simps)
    moreover have "0 \<le> \<bar>t\<bar> / 2 ^ 52" by simp
    ultimately show ?thesis unfolding amt by linarith
  qed
  have small: "389997 / 100 * ((1 + unit_roundoff) ^ 3 - (1 - unit_roundoff) ^ 3)
      + 389997 / 100 * (1 + unit_roundoff) ^ 3 / 2 ^ 52 < 1 / 200"
    by (simp add: unit_roundoff_def power3_eq_cube)
  from ex near small have "rat_of_int (o_total_amount ord) / 100 = 389997 / 100" by blast
  then have "o_total_amount ord = 389997" by simp
  with ord(1) have "\<exists>ord. orders (db (snd (place_order rounding_env shop_world three_laptops))) 1 = Some ord
          \<and> o_total_amount ord = 389997" by blast
  moreover have "list_all (\<lambda>it. quantity it < 2 ^ 53) (req_items three_laptops)"
    using c by (simp add: list_all_iff)
  moreover have "products (db shop_world) 1 = Some laptop \<and> 0 \<le> p_price laptop"
    by (simp add: shop_world_def shop_def laptop_def)
  ultimately show ?thesis using a b e t(2,3) tv by blast
qed


end
